theory Spec2Isabelle
  imports Main
begin

section \<open>Values, errors and the storage file\<close>

text \<open>
  The diary keeps its entries as Python dictionaries obtained from \<open>json.load\<close> or built
  by the save action, so an entry is a JSON value. A dictionary is an association list in
  insertion order; a key is looked up with \<open>map_of\<close>. JSON numbers are integers here: no
  operation of the program reads a number.
\<close>

datatype json =
    JNull
  | JBool bool
  | JInt int
  | JStr string
  | JList "json list"
  | JDict "(string \<times> json) list"

text \<open>
  The exceptions the modelled code can raise. None of them is \<open>JSONDecodeError\<close>, the one
  exception the program catches.
\<close>

datatype py_error =
    AttributeError | TypeError | KeyError | ValueError
  | UnicodeDecodeError | RecursionError | OSError

text \<open>
  What \<open>load_entries\<close> can observe of \<open>diary_entries.json\<close>: \<open>os.path.exists\<close> is false
  (\<open>NoFile\<close>); \<open>json.load\<close> raises \<open>JSONDecodeError\<close> (\<open>NotJson\<close>); \<open>open\<close> or \<open>json.load\<close>
  raises another exception (\<open>Raises\<close>): \<open>OSError\<close> for a file that cannot be opened,
  \<open>UnicodeDecodeError\<close> for bytes that are no text in the encoding of the file, \<open>ValueError\<close>
  for an integer of more digits than the interpreter converts, \<open>RecursionError\<close> for a
  document nested too deep; or \<open>json.load\<close> returns a value (\<open>JsonDoc\<close>). \<open>json.dump\<close> writes
  a document that \<open>json.load\<close> reads back as the value dumped; this contract of the standard
  library is part of the storage model.
\<close>

datatype storage = NoFile | NotJson | Raises py_error | JsonDoc json

section \<open>Entry store\<close>

text \<open>\<open>dict.setdefault(k, d)\<close>: a present key keeps its value, an absent key is appended.\<close>

definition setdefault :: "string \<Rightarrow> json \<Rightarrow> (string \<times> json) list \<Rightarrow> (string \<times> json) list" where
  "setdefault k d kvs = (case map_of kvs k of None \<Rightarrow> kvs @ [(k, d)] | Some v \<Rightarrow> kvs)"

text \<open>The four \<open>setdefault\<close> calls of the loop body (lines 18 to 21), in their order.\<close>

definition fill_defaults :: "(string \<times> json) list \<Rightarrow> (string \<times> json) list" where
  "fill_defaults kvs =
     setdefault ''image'' JNull
       (setdefault ''username'' (JStr ''Unknown User'')
         (setdefault ''tags'' (JList [])
           (setdefault ''title'' (JStr ''Untitled'') kvs)))"

text \<open>
  The loop \<open>for entry in entries\<close>: an element that is not a dictionary has no
  \<open>setdefault\<close> attribute, and the \<open>AttributeError\<close> is not caught by
  \<open>except json.JSONDecodeError\<close>.
\<close>

fun backfill :: "json list \<Rightarrow> py_error + json list" where
  "backfill [] = Inr []"
| "backfill (entry # rest) =
     (case entry of
        JDict kvs \<Rightarrow>
          (case backfill rest of
             Inl err \<Rightarrow> Inl err
           | Inr rest' \<Rightarrow> Inr (JDict (fill_defaults kvs) # rest'))
      | _ \<Rightarrow> Inl AttributeError)"

text \<open>
  Lines 10 to 27. The handler on line 25 names \<open>json.JSONDecodeError\<close> only, so every other
  exception of the \<open>try\<close> block leaves \<open>load_entries\<close>.
\<close>

fun load_entries :: "storage \<Rightarrow> py_error + json list" where
  "load_entries NoFile = Inr []"
| "load_entries NotJson = Inr []"
| "load_entries (Raises err) = Inl err"
| "load_entries (JsonDoc (JList entries)) = backfill entries"
| "load_entries (JsonDoc _) = Inr []"

definition save_entries :: "json list \<Rightarrow> storage" where
  "save_entries entries = JsonDoc (JList entries)"

subsection \<open>Vocabulary of the claims about the store\<close>

fun is_dict :: "json \<Rightarrow> bool" where
  "is_dict (JDict kvs) = True"
| "is_dict _ = False"

fun is_list :: "json \<Rightarrow> bool" where
  "is_list (JList vs) = True"
| "is_list _ = False"

text \<open>\<open>field e k\<close> is the value an entry holds under a key, if any.\<close>

fun field :: "json \<Rightarrow> string \<Rightarrow> json option" where
  "field (JDict kvs) k = map_of kvs k"
| "field _ k = None"

definition has_fields :: "string list \<Rightarrow> json \<Rightarrow> bool" where
  "has_fields ks e = (is_dict e \<and> list_all (\<lambda>k. field e k \<noteq> None) ks)"

definition all_fields :: "string list" where
  "all_fields = [''title'', ''date'', ''mood'', ''text'', ''tags'', ''username'', ''image'']"

definition backfilled_fields :: "string list" where
  "backfilled_fields = [''title'', ''tags'', ''username'', ''image'']"

text \<open>The default the spec names for a back-filled field.\<close>

fun default_of :: "string \<Rightarrow> json option" where
  "default_of k =
     (if k = ''title'' then Some (JStr ''Untitled'')
      else if k = ''tags'' then Some (JList [])
      else if k = ''username'' then Some (JStr ''Unknown User'')
      else if k = ''image'' then Some JNull
      else None)"

text \<open>An entry after the loop body has run on it; the loop only ever runs on dictionaries.\<close>

fun fill_entry :: "json \<Rightarrow> json" where
  "fill_entry (JDict kvs) = JDict (fill_defaults kvs)"
| "fill_entry v = v"

section \<open>Strings\<close>

text \<open>
  A Python string is modelled as a \<open>string\<close> whose characters are the code points
  \<open>U+0000\<close> to \<open>U+00FF\<close>. \<open>py_isspace\<close> is the whitespace that \<open>str.strip()\<close> removes and
  that \<open>\s\<close> matches in this range: tab, line feed, vertical tab, form feed, carriage return,
  the four separators \<open>0x1C\<close> to \<open>0x1F\<close>, the space, the next-line control \<open>0x85\<close> and the
  no-break space \<open>0xA0\<close>.
\<close>

definition py_isspace :: "char \<Rightarrow> bool" where
  "py_isspace c = (c \<in> set [CHR 0x09, CHR 0x0A, CHR 0x0B, CHR 0x0C, CHR 0x0D,
                              CHR 0x1C, CHR 0x1D, CHR 0x1E, CHR 0x1F, CHR '' '',
                              CHR 0x85, CHR 0xA0])"

definition strip :: "string \<Rightarrow> string" where
  "strip s = rev (dropWhile py_isspace (rev (dropWhile py_isspace s)))"

text \<open>
  \<open>s.split(sep)\<close> for a one-character separator. The result is never empty, so the last
  branch of the \<open>case\<close> is never taken.
\<close>

fun split_on :: "char \<Rightarrow> string \<Rightarrow> string list" where
  "split_on sep [] = [[]]"
| "split_on sep (c # cs) =
     (if c = sep then [] # split_on sep cs
      else (case split_on sep cs of
              p # ps \<Rightarrow> (c # p) # ps
            | [] \<Rightarrow> [[c]]))"

text \<open>
  \<open>str.lower()\<close> on this range maps each character on its own: the capitals \<open>A\<close> to \<open>Z\<close>
  (\<open>0x41\<close> to \<open>0x5A\<close>) and the accented capitals \<open>0xC0\<close> to \<open>0xDE\<close>, the multiplication sign
  \<open>0xD7\<close> excepted, move 32 places up to their small letters; every other character stays.
\<close>

definition is_upper :: "char \<Rightarrow> bool" where
  "is_upper c =
     ((65 \<le> (of_char c :: nat) \<and> (of_char c :: nat) \<le> 90) \<or>
      (192 \<le> (of_char c :: nat) \<and> (of_char c :: nat) \<le> 222 \<and> (of_char c :: nat) \<noteq> 215))"

definition lower_char :: "char \<Rightarrow> char" where
  "lower_char c = (if is_upper c then char_of ((of_char c :: nat) + 32) else c)"

definition py_lower :: "string \<Rightarrow> string" where
  "py_lower s = map lower_char s"

fun startswith :: "string \<Rightarrow> string \<Rightarrow> bool" where
  "startswith s [] = True"
| "startswith [] (p # ps) = False"
| "startswith (c # cs) (p # ps) = (c = p \<and> startswith cs ps)"

text \<open>\<open>str_in q t\<close> is the Python test \<open>q in t\<close> on two strings.\<close>

fun str_in :: "string \<Rightarrow> string \<Rightarrow> bool" where
  "str_in q [] = (q = [])"
| "str_in q (c # cs) = (startswith (c # cs) q \<or> str_in q cs)"

section \<open>The entry form\<close>

text \<open>Line 86: the comprehension over \<open>tags_input.split(",")\<close>.\<close>

definition tags_list :: "string \<Rightarrow> string list" where
  "tags_list tags_input =
     map strip (filter (\<lambda>tag. strip tag \<noteq> []) (split_on CHR '','' tags_input))"

text \<open>
  The radio button offers the five keys of \<open>mood_options\<close>; a constructor of \<open>mood\<close> stands
  for a key, and \<open>mood_options\<close> gives its pair of name and colour.
\<close>

datatype mood = Happy | Sad | Angry | Tired | Excited

fun mood_options :: "mood \<Rightarrow> string \<times> string" where
  "mood_options Happy = (''Happy'', ''#9b59b6'')"
| "mood_options Sad = (''Sad'', ''#3498DB'')"
| "mood_options Angry = (''Angry'', ''#E74C3C'')"
| "mood_options Tired = (''Tired'', ''#f4b400'')"
| "mood_options Excited = (''Excited'', ''#F1C40F'')"

text \<open>\<open>x or d\<close> on strings: the empty string is false.\<close>

definition str_or :: "string \<Rightarrow> string \<Rightarrow> string" where
  "str_or x d = (if x = [] then d else x)"

text \<open>
  Lines 105 to 107: the path recorded for an uploaded image, from the name of the upload.
  The bytes written under that path are not modelled.
\<close>

definition image_path :: "string option \<Rightarrow> json" where
  "image_path uploaded_image =
     (case uploaded_image of None \<Rightarrow> JNull | Some name \<Rightarrow> JStr (''uploaded_images/'' @ name))"

text \<open>Lines 112 to 120: the dictionary built when the save button is pressed.\<close>

definition entry :: "string \<Rightarrow> string \<Rightarrow> mood \<Rightarrow> string \<Rightarrow> string \<Rightarrow> string \<Rightarrow>
    string option \<Rightarrow> json" where
  "entry title formatted_date selected_mood diary_text tags_input username uploaded_image =
     JDict [(''title'', JStr (str_or title ''Untitled'')),
            (''date'', JStr formatted_date),
            (''mood'', JStr (fst (mood_options selected_mood))),
            (''text'', JStr diary_text),
            (''tags'', JList (map JStr (tags_list tags_input))),
            (''username'', JStr (str_or username ''Unknown User'')),
            (''image'', image_path uploaded_image)]"

text \<open>
  Lines 121 and 122: the entry is appended to the entries in memory and the whole sequence
  is written. The result is the new sequence and the new storage file.
\<close>

definition save_button :: "json list \<Rightarrow> json \<Rightarrow> json list \<times> storage" where
  "save_button entries e = (entries @ [e], save_entries (entries @ [e]))"

section \<open>Dates\<close>

text \<open>
  A \<open>datetime.date\<close>. Python compares two dates as the tuples of year, month and day;
  \<open>date_le\<close> is \<open>\<le>\<close> on dates.
\<close>

datatype date = Date (year: nat) (month: nat) (day: nat)

definition date_le :: "date \<Rightarrow> date \<Rightarrow> bool" where
  "date_le a b =
     (year a < year b \<or>
      (year a = year b \<and> (month a < month b \<or> (month a = month b \<and> day a \<le> day b))))"

definition is_leap :: "nat \<Rightarrow> bool" where
  "is_leap y = (y mod 4 = 0 \<and> (y mod 100 \<noteq> 0 \<or> y mod 400 = 0))"

definition days_in_month :: "nat \<Rightarrow> nat \<Rightarrow> nat" where
  "days_in_month y m =
     (if m = 2 \<and> is_leap y then 29
      else [31, 28, 31, 30, 31, 30, 31, 31, 30, 31, 30, 31] ! (m - 1))"

text \<open>The constructor \<open>date(y, m, d)\<close>, which raises \<open>ValueError\<close> outside the calendar.\<close>

definition make_date :: "nat \<Rightarrow> nat \<Rightarrow> nat \<Rightarrow> py_error + date" where
  "make_date y m d =
     (if 1 \<le> y \<and> y \<le> 9999 \<and> 1 \<le> m \<and> m \<le> 12 \<and> 1 \<le> d \<and> d \<le> days_in_month y m
      then Inr (Date y m d) else Inl ValueError)"

subsection \<open>\<open>strptime\<close> with the format \<open>%Y-%m-%d (%A)\<close>\<close>

text \<open>
  \<open>datetime.strptime\<close> turns the format into the regular expression
  \<open>(\d\d\d\d)-(1[0-2]|0[1-9]|[1-9])-(3[0-1]|[1-2]\d|0[1-9]|[1-9]| [1-9])\s+\((names)\)\<close>,
  matched at the start of the text, ignoring case, with the weekday names of the English
  locale; text left over after the match, and a day that the month does not have, raise
  \<open>ValueError\<close>. The weekday that was read is not compared with the date. Each function
  below lists, in the order the matcher tries them, the ways one part of the expression
  matches a prefix of the text, with the text that remains.
\<close>

definition is_digit :: "char \<Rightarrow> bool" where
  "is_digit c = (c \<in> set ''0123456789'')"

definition digit_val :: "char \<Rightarrow> nat" where
  "digit_val c = of_char c - 48"

definition month_alts :: "string \<Rightarrow> (nat \<times> string) list" where
  "month_alts s =
     (case s of
        a # b # r \<Rightarrow> if a = CHR ''1'' \<and> b \<in> set ''012'' then [(10 + digit_val b, r)] else []
      | _ \<Rightarrow> []) @
     (case s of
        a # b # r \<Rightarrow> if a = CHR ''0'' \<and> b \<in> set ''123456789'' then [(digit_val b, r)] else []
      | _ \<Rightarrow> []) @
     (case s of
        a # r \<Rightarrow> if a \<in> set ''123456789'' then [(digit_val a, r)] else []
      | _ \<Rightarrow> [])"

definition day_alts :: "string \<Rightarrow> (nat \<times> string) list" where
  "day_alts s =
     (case s of
        a # b # r \<Rightarrow> if a = CHR ''3'' \<and> b \<in> set ''01'' then [(30 + digit_val b, r)] else []
      | _ \<Rightarrow> []) @
     (case s of
        a # b # r \<Rightarrow>
          if a \<in> set ''12'' \<and> is_digit b then [(10 * digit_val a + digit_val b, r)] else []
      | _ \<Rightarrow> []) @
     (case s of
        a # b # r \<Rightarrow> if a = CHR ''0'' \<and> b \<in> set ''123456789'' then [(digit_val b, r)] else []
      | _ \<Rightarrow> []) @
     (case s of
        a # r \<Rightarrow> if a \<in> set ''123456789'' then [(digit_val a, r)] else []
      | _ \<Rightarrow> []) @
     (case s of
        a # b # r \<Rightarrow> if a = CHR '' '' \<and> b \<in> set ''123456789'' then [(digit_val b, r)] else []
      | _ \<Rightarrow> [])"

text \<open>The names of \<open>%A\<close>, longest first as the expression lists them.\<close>

definition weekday_names :: "string list" where
  "weekday_names =
     [''wednesday'', ''thursday'', ''saturday'', ''tuesday'', ''monday'', ''friday'', ''sunday'']"

definition name_alts :: "string \<Rightarrow> string list" where
  "name_alts s =
     concat (map (\<lambda>n. if py_lower (take (length n) s) = n \<and>
                          take 1 (drop (length n) s) = '')''
                       then [drop (length n + 1) s] else [])
                 weekday_names)"

definition weekday_alts :: "string \<Rightarrow> string list" where
  "weekday_alts s =
     (case s of
        [] \<Rightarrow> []
      | c # cs \<Rightarrow>
          if py_isspace c
          then (case dropWhile py_isspace cs of
                  [] \<Rightarrow> []
                | p # r \<Rightarrow> if p = CHR ''('' then name_alts r else [])
          else [])"

definition strptime_matches :: "string \<Rightarrow> ((nat \<times> nat \<times> nat) \<times> string) list" where
  "strptime_matches s =
     (case s of
        y1 # y2 # y3 # y4 # c # r1 \<Rightarrow>
          if is_digit y1 \<and> is_digit y2 \<and> is_digit y3 \<and> is_digit y4 \<and> c = CHR ''-''
          then concat (map (\<lambda>(m, r2).
                 case r2 of
                   [] \<Rightarrow> []
                 | c2 # r3 \<Rightarrow>
                     if c2 = CHR ''-''
                     then concat (map (\<lambda>(d, r4).
                            map (\<lambda>rest.
                                  ((1000 * digit_val y1 + 100 * digit_val y2 +
                                    10 * digit_val y3 + digit_val y4, m, d), rest))
                                (weekday_alts r4))
                          (day_alts r3))
                     else [])
               (month_alts r1))
          else []
      | _ \<Rightarrow> [])"

text \<open>
  \<open>datetime.datetime.strptime(s, "%Y-%m-%d (%A)").date()\<close> on a string: the first match
  decides.
\<close>

definition strptime_date :: "string \<Rightarrow> py_error + date" where
  "strptime_date s =
     (case strptime_matches s of
        [] \<Rightarrow> Inl ValueError
      | ((y, m, d), rest) # others \<Rightarrow> if rest = [] then make_date y m d else Inl ValueError)"

text \<open>The same call on any value: \<open>strptime\<close> raises \<open>TypeError\<close> unless it is given a string.\<close>

definition strptime :: "json \<Rightarrow> py_error + date" where
  "strptime v = (case v of JStr s \<Rightarrow> strptime_date s | _ \<Rightarrow> Inl TypeError)"

section \<open>Search and date filter\<close>

text \<open>\<open>entry.get(k, d)\<close>; only a dictionary has the method.\<close>

definition dict_get :: "json \<Rightarrow> string \<Rightarrow> json \<Rightarrow> py_error + json" where
  "dict_get e k d =
     (case e of
        JDict kvs \<Rightarrow> Inr (case map_of kvs k of None \<Rightarrow> d | Some v \<Rightarrow> v)
      | _ \<Rightarrow> Inl AttributeError)"

text \<open>\<open>entry[k]\<close>: a missing key raises \<open>KeyError\<close>, a string subscript on another value \<open>TypeError\<close>.\<close>

definition dict_item :: "json \<Rightarrow> string \<Rightarrow> py_error + json" where
  "dict_item e k =
     (case e of
        JDict kvs \<Rightarrow> (case map_of kvs k of None \<Rightarrow> Inl KeyError | Some v \<Rightarrow> Inr v)
      | _ \<Rightarrow> Inl TypeError)"

text \<open>\<open>v.lower()\<close>; only a string has the method.\<close>

definition lower_of :: "json \<Rightarrow> py_error + string" where
  "lower_of v = (case v of JStr s \<Rightarrow> Inr (py_lower s) | _ \<Rightarrow> Inl AttributeError)"

text \<open>
  What \<open>for tag in v\<close> iterates over: the elements of a list, the characters of a string,
  the keys of a dictionary; the other values are not iterable.
\<close>

definition py_iter :: "json \<Rightarrow> py_error + json list" where
  "py_iter v =
     (case v of
        JList xs \<Rightarrow> Inr xs
      | JStr s \<Rightarrow> Inr (map (\<lambda>c. JStr [c]) s)
      | JDict kvs \<Rightarrow> Inr (map (\<lambda>kv. JStr (fst kv)) kvs)
      | _ \<Rightarrow> Inl TypeError)"

text \<open>\<open>any(search_query.lower() in tag.lower() for tag in tags)\<close>, which stops at the first hit.\<close>

fun any_tag :: "string \<Rightarrow> json list \<Rightarrow> py_error + bool" where
  "any_tag search_query [] = Inr False"
| "any_tag search_query (tag # tags) =
     (case lower_of tag of
        Inl err \<Rightarrow> Inl err
      | Inr t \<Rightarrow> if str_in (py_lower search_query) t then Inr True
                 else any_tag search_query tags)"

text \<open>Line 170, the first operand of \<open>and\<close>: the title is tried first, then the tags.\<close>

definition search_match :: "string \<Rightarrow> json \<Rightarrow> py_error + bool" where
  "search_match search_query e =
     (case dict_get e ''title'' (JStr []) of
        Inl err \<Rightarrow> Inl err
      | Inr title \<Rightarrow>
          (case lower_of title of
             Inl err \<Rightarrow> Inl err
           | Inr t \<Rightarrow>
               if str_in (py_lower search_query) t then Inr True
               else (case dict_get e ''tags'' (JList []) of
                       Inl err \<Rightarrow> Inl err
                     | Inr tags \<Rightarrow>
                         (case py_iter tags of
                            Inl err \<Rightarrow> Inl err
                          | Inr ts \<Rightarrow> any_tag search_query ts))))"

text \<open>Line 171, the second operand: \<open>start_date <= strptime(entry['date'], ...).date() <= end_date\<close>.\<close>

definition date_match :: "date \<Rightarrow> date \<Rightarrow> json \<Rightarrow> py_error + bool" where
  "date_match start_date end_date e =
     (case dict_item e ''date'' of
        Inl err \<Rightarrow> Inl err
      | Inr v \<Rightarrow>
          (case strptime v of
             Inl err \<Rightarrow> Inl err
           | Inr d \<Rightarrow> Inr (date_le start_date d \<and> date_le d end_date)))"

text \<open>The condition of the comprehension: \<open>and\<close> evaluates its second operand only when needed.\<close>

definition keeps :: "string \<Rightarrow> date \<Rightarrow> date \<Rightarrow> json \<Rightarrow> py_error + bool" where
  "keeps search_query start_date end_date e =
     (case search_match search_query e of
        Inl err \<Rightarrow> Inl err
      | Inr found \<Rightarrow> if found then date_match start_date end_date e else Inr False)"

text \<open>Lines 168 to 172: the first entry whose condition raises ends the comprehension.\<close>

fun filtered_entries :: "string \<Rightarrow> date \<Rightarrow> date \<Rightarrow> json list \<Rightarrow> py_error + json list" where
  "filtered_entries search_query start_date end_date [] = Inr []"
| "filtered_entries search_query start_date end_date (e # entries) =
     (case keeps search_query start_date end_date e of
        Inl err \<Rightarrow> Inl err
      | Inr keep \<Rightarrow>
          (case filtered_entries search_query start_date end_date entries of
             Inl err \<Rightarrow> Inl err
           | Inr rest \<Rightarrow> Inr (if keep then e # rest else rest)))"

section \<open>Display of the kept entries\<close>

text \<open>
  Lines 183 to 189: the dictionary of the five faces is asked for \<open>entry["mood"]\<close> with
  \<open>dict.get\<close>. A list or a dictionary is not hashable and raises \<open>TypeError\<close>; any other
  value that is not one of the five names gives the default face. \<open>Some m\<close> stands for the
  face of the mood \<open>m\<close>, \<open>None\<close> for the default face.
\<close>

definition mood_icon :: "json \<Rightarrow> py_error + mood option" where
  "mood_icon v =
     (case v of
        JStr s \<Rightarrow>
          Inr (map_of [(''Happy'', Happy), (''Sad'', Sad), (''Angry'', Angry),
                       (''Tired'', Tired), (''Excited'', Excited)] s)
      | JList xs \<Rightarrow> Inl TypeError
      | JDict kvs \<Rightarrow> Inl TypeError
      | _ \<Rightarrow> Inr None)"

text \<open>
  \<open>v[:n]\<close>: a string and a list give their first \<open>n\<close> elements; \<open>None\<close>, a number and a
  truth value are not subscriptable and raise \<open>TypeError\<close>. A dictionary looks the slice up
  as a key: up to Python 3.11 a slice is not hashable and the lookup raises \<open>TypeError\<close>;
  from Python 3.12 on it is hashable, and it is no key of a dictionary read from JSON, so
  the lookup raises \<open>KeyError\<close>. \<open>py312\<close> tells which interpreter runs the program.
\<close>

definition py_slice :: "bool \<Rightarrow> nat \<Rightarrow> json \<Rightarrow> py_error + json" where
  "py_slice py312 n v =
     (case v of
        JStr s \<Rightarrow> Inr (JStr (take n s))
      | JList xs \<Rightarrow> Inr (JList (take n xs))
      | JDict kvs \<Rightarrow> Inl (if py312 then KeyError else TypeError)
      | _ \<Rightarrow> Inl TypeError)"

text \<open>
  A button of the sidebar, by the values its three f-strings format: the face and
  \<open>entry['title'][:30]\<close> of the label, \<open>entry['date']\<close> and \<open>idx\<close> of the key, and
  \<open>entry['date']\<close>, \<open>entry['mood']\<close> and \<open>entry['text'][:60]\<close> of the help text. The fixed
  text between the values is left out; formatting a value raises nothing.
\<close>

datatype button =
  Button (button_icon: "mood option") (button_label: json)
         (button_key: "json \<times> nat") (button_help: "json \<times> json \<times> json")

text \<open>
  Lines 183 to 196, the body of the loop for one entry, in the order of evaluation. Every
  subscript \<open>entry[k]\<close> raises \<open>KeyError\<close> on a missing key.
\<close>

definition entry_preview :: "bool \<Rightarrow> nat \<Rightarrow> json \<Rightarrow> py_error + button" where
  "entry_preview py312 idx e =
     (case dict_item e ''mood'' of
        Inl err \<Rightarrow> Inl err
      | Inr m \<Rightarrow>
     (case mood_icon m of
        Inl err \<Rightarrow> Inl err
      | Inr face \<Rightarrow>
     (case dict_item e ''title'' of
        Inl err \<Rightarrow> Inl err
      | Inr title \<Rightarrow>
     (case py_slice py312 30 title of
        Inl err \<Rightarrow> Inl err
      | Inr title30 \<Rightarrow>
     (case dict_item e ''date'' of
        Inl err \<Rightarrow> Inl err
      | Inr d \<Rightarrow>
     (case dict_item e ''text'' of
        Inl err \<Rightarrow> Inl err
      | Inr text \<Rightarrow>
     (case py_slice py312 60 text of
        Inl err \<Rightarrow> Inl err
      | Inr text60 \<Rightarrow> Inr (Button face title30 (d, idx) (d, m, text60)))))))))"

text \<open>
  The loop over \<open>enumerate(...)\<close> from \<open>idx\<close> on: the first entry whose body raises ends
  the run of the script. Each button comes with the entry that a click on it selects.
\<close>

fun previews :: "bool \<Rightarrow> nat \<Rightarrow> json list \<Rightarrow> py_error + (button \<times> json) list" where
  "previews py312 idx [] = Inr []"
| "previews py312 idx (e # es) =
     (case entry_preview py312 idx e of
        Inl err \<Rightarrow> Inl err
      | Inr b \<Rightarrow>
          (case previews py312 (Suc idx) es of
             Inl err \<Rightarrow> Inl err
           | Inr bs \<Rightarrow> Inr ((b, e) # bs)))"

text \<open>Line 181: the sidebar shows \<open>enumerate(reversed(filtered_entries))\<close>.\<close>

definition sidebar :: "bool \<Rightarrow> json list \<Rightarrow> py_error + (button \<times> json) list" where
  "sidebar py312 filtered = previews py312 0 (rev filtered)"

section \<open>Vocabulary of the claims about the form and the filters\<close>

text \<open>\<open>",".join(ps)\<close> for a one-character separator.\<close>

fun join :: "char \<Rightarrow> string list \<Rightarrow> string" where
  "join sep [] = []"
| "join sep [p] = p"
| "join sep (p # q # ps) = p @ sep # join sep (q # ps)"

text \<open>
  \<open>ps\<close> is the input split on the separator: the pieces, put together again with the
  separator between them, are the input, and no piece holds a separator.
\<close>

definition is_split_of :: "char \<Rightarrow> string list \<Rightarrow> string \<Rightarrow> bool" where
  "is_split_of sep ps s = (ps \<noteq> [] \<and> join sep ps = s \<and> (\<forall>p \<in> set ps. sep \<notin> set p))"

text \<open>
  The whitespace characters of the range, by code point: the controls 9 to 13 and 28 to 31,
  the space 32, the next-line control 133 and the no-break space 160.
\<close>

definition is_whitespace :: "char \<Rightarrow> bool" where
  "is_whitespace c =
     ((9 \<le> (of_char c :: nat) \<and> (of_char c :: nat) \<le> 13) \<or>
      (28 \<le> (of_char c :: nat) \<and> (of_char c :: nat) \<le> 32) \<or>
      (of_char c :: nat) = 133 \<or> (of_char c :: nat) = 160)"

text \<open>
  \<open>t\<close> is the piece \<open>p\<close> with its whitespace trimmed: \<open>p\<close> is \<open>t\<close> between two runs of
  whitespace, and \<open>t\<close> neither starts nor ends with whitespace.
\<close>

definition is_trim_of :: "string \<Rightarrow> string \<Rightarrow> bool" where
  "is_trim_of t p =
     (\<exists>l r. p = l @ t @ r \<and> list_all is_whitespace l \<and> list_all is_whitespace r \<and>
            (t \<noteq> [] \<longrightarrow> \<not> is_whitespace (hd t) \<and> \<not> is_whitespace (last t)))"

text \<open>
  The capital letters of the range, \<open>A\<close> to \<open>Z\<close> and the accented capitals of Latin-1, and
  at the same places their small letters.
\<close>

definition capital_letters :: string where
  "capital_letters =
     ''ABCDEFGHIJKLMNOPQRSTUVWXYZ'' @
      [CHR 0xC0, CHR 0xC1, CHR 0xC2, CHR 0xC3,
       CHR 0xC4, CHR 0xC5, CHR 0xC6, CHR 0xC7, CHR 0xC8, CHR 0xC9, CHR 0xCA, CHR 0xCB,
       CHR 0xCC, CHR 0xCD, CHR 0xCE, CHR 0xCF, CHR 0xD0, CHR 0xD1, CHR 0xD2, CHR 0xD3,
       CHR 0xD4, CHR 0xD5, CHR 0xD6, CHR 0xD8, CHR 0xD9, CHR 0xDA, CHR 0xDB, CHR 0xDC,
       CHR 0xDD, CHR 0xDE]"

definition small_letters :: string where
  "small_letters =
     ''abcdefghijklmnopqrstuvwxyz'' @
      [CHR 0xE0, CHR 0xE1, CHR 0xE2, CHR 0xE3,
       CHR 0xE4, CHR 0xE5, CHR 0xE6, CHR 0xE7, CHR 0xE8, CHR 0xE9, CHR 0xEA, CHR 0xEB,
       CHR 0xEC, CHR 0xED, CHR 0xEE, CHR 0xEF, CHR 0xF0, CHR 0xF1, CHR 0xF2, CHR 0xF3,
       CHR 0xF4, CHR 0xF5, CHR 0xF6, CHR 0xF8, CHR 0xF9, CHR 0xFA, CHR 0xFB, CHR 0xFC,
       CHR 0xFD, CHR 0xFE]"

text \<open>
  Two characters are the same letter when they are equal or one is a capital letter and
  the other the small letter for it. \<open>q\<close> is a substring of \<open>t\<close> up to the case of each
  letter when some contiguous part of \<open>t\<close> is \<open>q\<close> character by character, up to that.
\<close>

definition same_letter :: "char \<Rightarrow> char \<Rightarrow> bool" where
  "same_letter a b =
     (a = b \<or> (a, b) \<in> set (zip capital_letters small_letters)
            \<or> (b, a) \<in> set (zip capital_letters small_letters))"

definition ci_substring :: "string \<Rightarrow> string \<Rightarrow> bool" where
  "ci_substring q t = (\<exists>ps u ss. t = ps @ u @ ss \<and> list_all2 same_letter q u)"

text \<open>
  Caseless matching of Unicode, which \<open>str.casefold()\<close> implements, compares the case
  foldings of two texts. In this range the folding of a capital letter is its small letter
  and the folding of the sharp s \<open>0xDF\<close> is \<open>ss\<close>, so that \<open>STRASSE\<close> and the same word written
  with a sharp s are one word. The micro sign \<open>0xB5\<close> folds to the Greek small mu, outside
  the range, to which nothing else of the range folds; it is left in place here, which
  changes no comparison of two foldings. Every other character is its own folding.
\<close>

definition fold_char :: "char \<Rightarrow> string" where
  "fold_char c =
     (if c = CHR 0xDF then ''ss''
      else (case map_of (zip capital_letters small_letters) c of
              Some l \<Rightarrow> [l]
            | None \<Rightarrow> [c]))"

definition casefold :: "string \<Rightarrow> string" where
  "casefold s = concat (map fold_char s)"

definition caseless_substring :: "string \<Rightarrow> string \<Rightarrow> bool" where
  "caseless_substring q t = (\<exists>ps u ss. t = ps @ u @ ss \<and> casefold q = casefold u)"

text \<open>
  The two conditions of the filter in the words of the spec, on an entry with a string
  title, a list of string tags and a date string: the query is a substring, up to the case
  of each letter, of the title or of a tag; the date the string parses to lies between the
  two ends of the range, the ends included.
\<close>

definition search_accepts :: "string \<Rightarrow> json \<Rightarrow> bool" where
  "search_accepts q e =
     (\<exists>title tags.
        field e ''title'' = Some (JStr title) \<and>
        field e ''tags'' = Some (JList (map JStr tags)) \<and>
        (ci_substring q title \<or> (\<exists>tag \<in> set tags. ci_substring q tag)))"

definition date_accepts :: "date \<Rightarrow> date \<Rightarrow> json \<Rightarrow> bool" where
  "date_accepts start_date end_date e =
     (\<exists>ds d.
        field e ''date'' = Some (JStr ds) \<and> strptime_date ds = Inr d \<and>
        date_le start_date d \<and> date_le d end_date)"

text \<open>
  An entry of the data model, as far as the filter and the display read it: a dictionary
  whose title, mood and text are strings, whose tags are a list of strings, and whose date
  is a string that \<open>strptime\<close> accepts.
\<close>

definition diary_entry :: "json \<Rightarrow> bool" where
  "diary_entry e =
     (\<exists>title tags ds d m tx.
        field e ''title'' = Some (JStr title) \<and>
        field e ''tags'' = Some (JList (map JStr tags)) \<and>
        field e ''date'' = Some (JStr ds) \<and>
        strptime_date ds = Inr d \<and>
        field e ''mood'' = Some (JStr m) \<and>
        field e ''text'' = Some (JStr tx))"

section \<open>Properties of the store\<close>

lemma map_of_setdefault:
  "map_of (setdefault k d kvs) k' =
     (if k' = k \<and> map_of kvs k = None then Some d else map_of kvs k')"
  by (auto simp: setdefault_def map_add_def split: option.splits)

lemma map_of_fill_defaults:
  "map_of (fill_defaults kvs) k =
     (case map_of kvs k of Some v \<Rightarrow> Some v | None \<Rightarrow> default_of k)"
  by (simp add: fill_defaults_def map_of_setdefault split: option.splits)

lemma backfill_dicts: "list_all is_dict docs \<Longrightarrow> backfill docs = Inr (map fill_entry docs)"
  by (induction docs) (auto split: json.splits)

lemma backfill_not_dicts: "\<not> list_all is_dict docs \<Longrightarrow> backfill docs = Inl AttributeError"
proof (induction docs)
  case Nil
  then show ?case by simp
next
  case (Cons d docs)
  show ?case
  proof (cases d)
    case (JDict kvs)
    with Cons show ?thesis by simp
  qed simp_all
qed

lemma backfill_Inr:
  "backfill docs = Inr es \<Longrightarrow> list_all is_dict docs \<and> es = map fill_entry docs"
  by (cases "list_all is_dict docs") (simp_all add: backfill_dicts backfill_not_dicts)

lemma field_fill_entry:
  "is_dict e \<Longrightarrow>
   field (fill_entry e) k = (case field e k of Some v \<Rightarrow> Some v | None \<Rightarrow> default_of k)"
  by (cases e) (simp_all add: map_of_fill_defaults del: default_of.simps)

lemma has_backfilled: "is_dict e \<Longrightarrow> has_fields backfilled_fields (fill_entry e)"
  by (cases e)
    (simp_all add: has_fields_def backfilled_fields_def map_of_fill_defaults split: option.splits)

lemma fill_entry_complete: "has_fields backfilled_fields e \<Longrightarrow> fill_entry e = e"
  by (cases e)
    (auto simp: has_fields_def backfilled_fields_def fill_defaults_def setdefault_def)

lemma load_entries_Inr:
  "load_entries st = Inr es \<Longrightarrow>
   es = [] \<or> (\<exists>docs. st = JsonDoc (JList docs) \<and> list_all is_dict docs \<and> es = map fill_entry docs)"
  by (induction st rule: load_entries.induct) (auto dest: backfill_Inr)

text \<open>
  Claim C1, as amended. Every entry of a sequence returned by \<open>load_entries\<close> is a
  dictionary holding \<open>title\<close>, \<open>tags\<close>, \<open>username\<close> and \<open>image\<close>. Every other key,
  \<open>date\<close>, \<open>mood\<close> and \<open>text\<close> among them, is exactly as persisted: present if the file had
  it, absent if not. No default is supplied for those three.
\<close>

theorem load_backfills_four_fields:
  assumes "load_entries st = Inr es"
  shows "(\<forall>e \<in> set es. has_fields backfilled_fields e) \<and>
         (\<forall>docs. st = JsonDoc (JList docs) \<longrightarrow>
            length es = length docs \<and>
            (\<forall>i < length docs. \<forall>k. k \<notin> set backfilled_fields \<longrightarrow>
               field (es ! i) k = field (docs ! i) k))"
proof (intro conjI ballI allI impI)
  fix e assume "e \<in> set es"
  with load_entries_Inr [OF assms] show "has_fields backfilled_fields e"
    by (auto simp: list_all_iff has_backfilled)
next
  fix docs assume st: "st = JsonDoc (JList docs)"
  with assms have b: "list_all is_dict docs" "es = map fill_entry docs"
    using backfill_Inr [of docs es] by simp_all
  then show "length es = length docs" by simp
  fix i k assume "i < length docs" "k \<notin> set backfilled_fields"
  moreover from this b have "is_dict (docs ! i)" by (simp add: list_all_length)
  ultimately show "field (es ! i) k = field (docs ! i) k"
    using b by (auto simp: field_fill_entry backfilled_fields_def split: option.splits)
qed

theorem load_backfills_four_fields_witness:
  "load_entries (JsonDoc (JList [JDict [(''date'', JStr ''2024-01-05 (Friday)'')]])) =
     Inr [JDict [(''date'', JStr ''2024-01-05 (Friday)''), (''title'', JStr ''Untitled''),
                 (''tags'', JList []), (''username'', JStr ''Unknown User''), (''image'', JNull)]] \<and>
   has_fields backfilled_fields
     (JDict [(''date'', JStr ''2024-01-05 (Friday)''), (''title'', JStr ''Untitled''),
             (''tags'', JList []), (''username'', JStr ''Unknown User''), (''image'', JNull)]) \<and>
   field (JDict [(''date'', JStr ''2024-01-05 (Friday)''), (''title'', JStr ''Untitled''),
                 (''tags'', JList []), (''username'', JStr ''Unknown User''), (''image'', JNull)])
         ''mood'' =
     field (JDict [(''date'', JStr ''2024-01-05 (Friday)'')]) ''mood''"
proof -
  have l: "load_entries (JsonDoc (JList [JDict [(''date'', JStr ''2024-01-05 (Friday)'')]])) =
     Inr [JDict [(''date'', JStr ''2024-01-05 (Friday)''), (''title'', JStr ''Untitled''),
                 (''tags'', JList []), (''username'', JStr ''Unknown User''), (''image'', JNull)]]"
    by (simp add: fill_defaults_def setdefault_def)
  from load_backfills_four_fields [OF l] l show ?thesis
    by (simp add: backfilled_fields_def)
qed

text \<open>
  Claim C1 as stated fails: an entry persisted without \<open>date\<close> and \<open>mood\<close> is returned
  without them.
\<close>

theorem load_missing_date_counterexample:
  "load_entries (JsonDoc (JList [JDict [(''text'', JStr ''hello'')]])) =
     Inr [JDict [(''text'', JStr ''hello''), (''title'', JStr ''Untitled''), (''tags'', JList []),
                 (''username'', JStr ''Unknown User''), (''image'', JNull)]] \<and>
   \<not> has_fields all_fields
       (JDict [(''text'', JStr ''hello''), (''title'', JStr ''Untitled''), (''tags'', JList []),
               (''username'', JStr ''Unknown User''), (''image'', JNull)])"
  by (simp add: fill_defaults_def setdefault_def has_fields_def all_fields_def)

text \<open>
  Claim C2, as amended. \<open>load_entries\<close> returns the empty sequence, raising nothing, when
  the file is absent, when \<open>json.load\<close> rejects its content with \<open>JSONDecodeError\<close> and when
  the parsed value is not a list. When the parsed value is a list whose elements are all
  JSON objects, it returns as many objects, in the same order; each holds every key of the
  persisted object with the persisted value, each of \<open>title\<close>, \<open>tags\<close>, \<open>username\<close> and
  \<open>image\<close> that was missing with the default of the spec, and no other key.
\<close>

theorem load_entries_cases:
  "load_entries NoFile = Inr [] \<and>
   load_entries NotJson = Inr [] \<and>
   (\<not> is_list v \<longrightarrow> load_entries (JsonDoc v) = Inr []) \<and>
   (list_all is_dict docs \<longrightarrow>
      (\<exists>es. load_entries (JsonDoc (JList docs)) = Inr es \<and>
            length es = length docs \<and>
            (\<forall>i < length docs.
               is_dict (es ! i) \<and>
               (\<forall>k. field (es ! i) k =
                      (case field (docs ! i) k of
                         Some x \<Rightarrow> Some x
                       | None \<Rightarrow>
                           if k = ''title'' then Some (JStr ''Untitled'')
                           else if k = ''tags'' then Some (JList [])
                           else if k = ''username'' then Some (JStr ''Unknown User'')
                           else if k = ''image'' then Some JNull
                           else None)))))"
proof (intro conjI impI)
  show "load_entries NoFile = Inr []" by simp
  show "load_entries NotJson = Inr []" by simp
next
  assume "\<not> is_list v"
  then show "load_entries (JsonDoc v) = Inr []" by (cases v) simp_all
next
  assume d: "list_all is_dict docs"
  then have l: "load_entries (JsonDoc (JList docs)) = Inr (map fill_entry docs)"
    by (simp add: backfill_dicts)
  have "is_dict (map fill_entry docs ! i) \<and>
        (\<forall>k. field (map fill_entry docs ! i) k =
               (case field (docs ! i) k of
                  Some x \<Rightarrow> Some x
                | None \<Rightarrow>
                    if k = ''title'' then Some (JStr ''Untitled'')
                    else if k = ''tags'' then Some (JList [])
                    else if k = ''username'' then Some (JStr ''Unknown User'')
                    else if k = ''image'' then Some JNull
                    else None))"
    if "i < length docs" for i
  proof -
    from d that have e: "is_dict (docs ! i)" by (simp add: list_all_length)
    then have "is_dict (fill_entry (docs ! i))" by (cases "docs ! i") simp_all
    with e that show ?thesis by (simp add: field_fill_entry split: option.splits)
  qed
  with l show "\<exists>es. load_entries (JsonDoc (JList docs)) = Inr es \<and>
            length es = length docs \<and>
            (\<forall>i < length docs.
               is_dict (es ! i) \<and>
               (\<forall>k. field (es ! i) k =
                      (case field (docs ! i) k of
                         Some x \<Rightarrow> Some x
                       | None \<Rightarrow>
                           if k = ''title'' then Some (JStr ''Untitled'')
                           else if k = ''tags'' then Some (JList [])
                           else if k = ''username'' then Some (JStr ''Unknown User'')
                           else if k = ''image'' then Some JNull
                           else None)))"
    by (intro exI [of _ "map fill_entry docs"]) simp
qed

theorem load_entries_cases_witness:
  "\<not> is_list (JDict [(''title'', JStr ''a'')]) \<and>
   load_entries (JsonDoc (JDict [(''title'', JStr ''a'')])) = Inr [] \<and>
   list_all is_dict [JDict [(''title'', JStr ''a''), (''mood'', JStr ''Sad'')], JDict []] \<and>
   load_entries
     (JsonDoc (JList [JDict [(''title'', JStr ''a''), (''mood'', JStr ''Sad'')], JDict []])) =
     Inr [JDict [(''title'', JStr ''a''), (''mood'', JStr ''Sad''), (''tags'', JList []),
                 (''username'', JStr ''Unknown User''), (''image'', JNull)],
          JDict [(''title'', JStr ''Untitled''), (''tags'', JList []),
                 (''username'', JStr ''Unknown User''), (''image'', JNull)]]"
  using load_entries_cases [of "JDict [(''title'', JStr ''a'')]"
      "[JDict [(''title'', JStr ''a''), (''mood'', JStr ''Sad'')], JDict []]"]
  by (simp add: fill_defaults_def setdefault_def)

text \<open>
  Claim C2 as stated fails on a parsed list that holds something other than an object: the
  loop raises \<open>AttributeError\<close>, so nothing is returned.
\<close>

theorem load_non_object_counterexample:
  "load_entries (JsonDoc (JList [JInt 1])) = Inl AttributeError"
  by simp

text \<open>
  Claim C3. In a store file that loads, an entry record without \<open>tags\<close>, \<open>username\<close>,
  \<open>image\<close> or \<open>title\<close> comes back, at the same position, with \<open>[]\<close>, \<open>"Unknown User"\<close>,
  \<open>None\<close> and \<open>"Untitled"\<close> under the missing key.
\<close>

theorem load_defaults:
  assumes "load_entries (JsonDoc (JList docs)) = Inr es" and "i < length docs"
  shows "i < length es \<and>
         (field (docs ! i) ''tags'' = None \<longrightarrow> field (es ! i) ''tags'' = Some (JList [])) \<and>
         (field (docs ! i) ''username'' = None \<longrightarrow>
            field (es ! i) ''username'' = Some (JStr ''Unknown User'')) \<and>
         (field (docs ! i) ''image'' = None \<longrightarrow> field (es ! i) ''image'' = Some JNull) \<and>
         (field (docs ! i) ''title'' = None \<longrightarrow> field (es ! i) ''title'' = Some (JStr ''Untitled''))"
proof -
  from assms have b: "list_all is_dict docs" "es = map fill_entry docs"
    using backfill_Inr [of docs es] by simp_all
  with assms have d: "is_dict (docs ! i)" by (simp add: list_all_length)
  from b assms have e: "es ! i = fill_entry (docs ! i)" by simp
  show ?thesis using b assms by (simp add: e field_fill_entry [OF d])
qed

theorem load_defaults_witness:
  "load_entries (JsonDoc (JList [JDict [(''date'', JStr ''2024-01-05 (Friday)'')]])) =
     Inr [JDict [(''date'', JStr ''2024-01-05 (Friday)''), (''title'', JStr ''Untitled''),
                 (''tags'', JList []), (''username'', JStr ''Unknown User''), (''image'', JNull)]] \<and>
   (0::nat) < length [JDict [(''date'', JStr ''2024-01-05 (Friday)'')]] \<and>
   field (JDict [(''date'', JStr ''2024-01-05 (Friday)'')]) ''tags'' = None \<and>
   field (JDict [(''date'', JStr ''2024-01-05 (Friday)''), (''title'', JStr ''Untitled''),
                 (''tags'', JList []), (''username'', JStr ''Unknown User''), (''image'', JNull)])
         ''tags'' = Some (JList [])"
proof -
  have l: "load_entries (JsonDoc (JList [JDict [(''date'', JStr ''2024-01-05 (Friday)'')]])) =
     Inr [JDict [(''date'', JStr ''2024-01-05 (Friday)''), (''title'', JStr ''Untitled''),
                 (''tags'', JList []), (''username'', JStr ''Unknown User''), (''image'', JNull)]]"
    by (simp add: fill_defaults_def setdefault_def)
  from load_defaults [OF l, of 0] l show ?thesis by simp
qed

text \<open>
  Claim C4. When every entry of a sequence has all seven fields, \<open>save_entries\<close> followed by
  \<open>load_entries\<close> returns the same sequence: same entries, same order, same values.
\<close>

theorem save_load_roundtrip:
  assumes "\<forall>e \<in> set es. has_fields all_fields e"
  shows "load_entries (save_entries es) = Inr es"
proof -
  have sub: "has_fields backfilled_fields e" if "has_fields all_fields e" for e
    using that by (simp add: has_fields_def all_fields_def backfilled_fields_def)
  from assms have "list_all is_dict es"
    by (simp add: list_all_iff has_fields_def)
  moreover from assms have "map fill_entry es = es"
    by (simp add: map_idI fill_entry_complete sub)
  ultimately show ?thesis
    by (simp add: save_entries_def backfill_dicts)
qed

theorem save_load_roundtrip_witness:
  "has_fields all_fields
     (JDict [(''title'', JStr ''Run''), (''date'', JStr ''2024-01-05 (Friday)''),
             (''mood'', JStr ''Happy''), (''text'', JStr ''5 km''),
             (''tags'', JList [JStr ''Health'']), (''username'', JStr ''Ann''),
             (''image'', JNull)]) \<and>
   load_entries (save_entries
     [JDict [(''title'', JStr ''Run''), (''date'', JStr ''2024-01-05 (Friday)''),
             (''mood'', JStr ''Happy''), (''text'', JStr ''5 km''),
             (''tags'', JList [JStr ''Health'']), (''username'', JStr ''Ann''),
             (''image'', JNull)]]) =
   Inr [JDict [(''title'', JStr ''Run''), (''date'', JStr ''2024-01-05 (Friday)''),
               (''mood'', JStr ''Happy''), (''text'', JStr ''5 km''),
               (''tags'', JList [JStr ''Health'']), (''username'', JStr ''Ann''),
               (''image'', JNull)]]"
proof -
  have h: "has_fields all_fields
     (JDict [(''title'', JStr ''Run''), (''date'', JStr ''2024-01-05 (Friday)''),
             (''mood'', JStr ''Happy''), (''text'', JStr ''5 km''),
             (''tags'', JList [JStr ''Health'']), (''username'', JStr ''Ann''),
             (''image'', JNull)])"
    by (simp add: has_fields_def all_fields_def)
  then have "\<forall>e \<in> set [JDict [(''title'', JStr ''Run''), (''date'', JStr ''2024-01-05 (Friday)''),
             (''mood'', JStr ''Happy''), (''text'', JStr ''5 km''),
             (''tags'', JList [JStr ''Health'']), (''username'', JStr ''Ann''),
             (''image'', JNull)]]. has_fields all_fields e"
    by simp
  from save_load_roundtrip [OF this] h show ?thesis by simp
qed

section \<open>Properties of the string operations\<close>

lemma eq_char_of_iff: "(c = char_of (n::nat)) \<longleftrightarrow> of_char c = n mod 256"
  using char_of_eq_iff [of n c] by (auto simp: take_bit_eq_mod)

lemmas string_eval =
  py_isspace_def strip_def py_lower_def lower_char_def is_upper_def char_of_eq_iff
  eq_char_of_iff

lemma split_on_nonempty: "split_on sep s \<noteq> []"
  by (induction s) (auto split: list.splits)

lemma join_Cons: "ps \<noteq> [] \<Longrightarrow> join sep (p # ps) = p @ sep # join sep ps"
  by (cases ps) auto

lemma join_Cons_head: "join sep ((c # p) # ps) = c # join sep (p # ps)"
  by (cases ps) auto

lemma join_split_on: "join sep (split_on sep s) = s"
proof (induction s)
  case Nil
  show ?case by simp
next
  case (Cons c cs)
  obtain p ps where ps: "split_on sep cs = p # ps"
    using split_on_nonempty [of sep cs] by (cases "split_on sep cs") auto
  show ?case
  proof (cases "c = sep")
    case True
    with Cons show ?thesis by (simp add: join_Cons split_on_nonempty)
  next
    case False
    with Cons ps show ?thesis by (simp add: join_Cons_head)
  qed
qed

lemma split_on_no_sep: "p \<in> set (split_on sep s) \<Longrightarrow> sep \<notin> set p"
proof (induction s arbitrary: p)
  case Nil
  then show ?case by simp
next
  case (Cons c cs)
  obtain q qs where qs: "split_on sep cs = q # qs"
    using split_on_nonempty [of sep cs] by (cases "split_on sep cs") auto
  show ?case
  proof (cases "c = sep")
    case True
    with Cons.prems have "p = [] \<or> p \<in> set (split_on sep cs)" by simp
    with Cons.IH show ?thesis by auto
  next
    case False
    with Cons.prems qs have "p = c # q \<or> p \<in> set qs" by simp
    moreover have "sep \<notin> set q" using Cons.IH [of q] qs by simp
    moreover have "p \<in> set qs \<Longrightarrow> sep \<notin> set p" using Cons.IH [of p] qs by simp
    ultimately show ?thesis using False by auto
  qed
qed

lemma is_split_of_split_on: "is_split_of sep (split_on sep s) s"
  by (simp add: is_split_of_def split_on_nonempty join_split_on split_on_no_sep)

lemma split_on_append:
  "sep \<notin> set p \<Longrightarrow> split_on sep (p @ sep # s) = p # split_on sep s"
  by (induction p) auto

lemma split_on_no_sep_id: "sep \<notin> set p \<Longrightarrow> split_on sep p = [p]"
  by (induction p) auto

lemma split_on_join:
  "ps \<noteq> [] \<Longrightarrow> \<forall>p \<in> set ps. sep \<notin> set p \<Longrightarrow> split_on sep (join sep ps) = ps"
proof (induction sep ps rule: join.induct)
  case (1 sep)
  then show ?case by simp
next
  case (2 sep p)
  then show ?case by (simp add: split_on_no_sep_id)
next
  case (3 sep p q ps)
  then show ?case by (simp add: split_on_append)
qed

lemma is_split_of_unique: "is_split_of sep ps s \<Longrightarrow> ps = split_on sep s"
  using split_on_join [of ps sep] by (auto simp: is_split_of_def)

lemma char_eq_code: "(c = d) \<longleftrightarrow> (of_char c :: nat) = of_char d"
  by simp

lemma py_isspace_eq: "py_isspace c = is_whitespace c"
  unfolding py_isspace_def is_whitespace_def
  by (simp add: char_eq_code del: of_char_eq_iff) arith

lemma is_whitespace_eq: "is_whitespace = py_isspace"
  by (rule ext) (simp add: py_isspace_eq)

lemma rev_split_spaces: "xs = rev (dropWhile P (rev xs)) @ rev (takeWhile P (rev xs))"
proof -
  have "rev xs = takeWhile P (rev xs) @ dropWhile P (rev xs)" by simp
  then have "rev (rev xs) = rev (takeWhile P (rev xs) @ dropWhile P (rev xs))" by (rule arg_cong)
  then show ?thesis by (simp only: rev_rev_ident rev_append)
qed

lemma strip_decomp:
  "p = takeWhile py_isspace p @ strip p @
       rev (takeWhile py_isspace (rev (dropWhile py_isspace p)))"
proof -
  have "dropWhile py_isspace p =
        strip p @ rev (takeWhile py_isspace (rev (dropWhile py_isspace p)))"
    unfolding strip_def by (rule rev_split_spaces)
  moreover have "p = takeWhile py_isspace p @ dropWhile py_isspace p" by simp
  ultimately show ?thesis by simp
qed

lemma strip_ends:
  assumes "strip p \<noteq> []"
  shows "\<not> py_isspace (hd (strip p))" and "\<not> py_isspace (last (strip p))"
proof -
  let ?d = "dropWhile py_isspace p"
  let ?e = "dropWhile py_isspace (rev ?d)"
  from assms have e: "?e \<noteq> []" by (simp add: strip_def)
  then have "\<not> py_isspace (hd ?e)" by (rule hd_dropWhile)
  with e show "\<not> py_isspace (last (strip p))" by (simp add: strip_def last_rev)
  have d: "?d \<noteq> []"
  proof
    assume a: "?d = []"
    have "?e = []" unfolding a by simp
    with e show False by simp
  qed
  then have nd: "\<not> py_isspace (hd ?d)" by (rule hd_dropWhile)
  have "?d = rev ?e @ rev (takeWhile py_isspace (rev ?d))" by (rule rev_split_spaces)
  then have "hd ?d = hd (rev ?e @ rev (takeWhile py_isspace (rev ?d)))" by (rule arg_cong)
  with e have "hd ?d = hd (rev ?e)" by simp
  with nd show "\<not> py_isspace (hd (strip p))" by (simp add: strip_def)
qed

lemma is_trim_of_strip: "is_trim_of (strip p) p"
  unfolding is_trim_of_def is_whitespace_eq
proof (intro exI conjI impI)
  show "p = takeWhile py_isspace p @ strip p @
       rev (takeWhile py_isspace (rev (dropWhile py_isspace p)))"
    by (rule strip_decomp)
  show "list_all py_isspace (takeWhile py_isspace p)"
    by (auto simp: list_all_iff dest: set_takeWhileD)
  show "list_all py_isspace (rev (takeWhile py_isspace (rev (dropWhile py_isspace p))))"
    by (auto simp: list_all_iff dest: set_takeWhileD)
qed (simp_all add: strip_ends)

lemma dropWhile_spaces: "list_all P l \<Longrightarrow> dropWhile P (l @ t) = dropWhile P t"
  by (induction l) auto

lemma strip_sandwich:
  assumes "list_all py_isspace l" "list_all py_isspace r"
    and "t \<noteq> [] \<longrightarrow> \<not> py_isspace (hd t) \<and> \<not> py_isspace (last t)"
  shows "strip (l @ t @ r) = t"
proof (cases "t = []")
  case True
  from assms have "\<forall>x \<in> set (l @ r). py_isspace x"
    by (auto simp: list_all_iff)
  then have d0: "dropWhile py_isspace (l @ r) = []"
    by (simp only: dropWhile_eq_Nil_conv)
  show ?thesis unfolding True strip_def append_Nil d0 by simp
next
  case False
  with assms have h: "\<not> py_isspace (hd t)" and la: "\<not> py_isspace (last t)" by simp_all
  from False h have "dropWhile py_isspace (t @ r) = t @ r"
    by (cases t) auto
  with assms have d: "dropWhile py_isspace (l @ t @ r) = t @ r"
    by (simp add: dropWhile_spaces)
  from assms have "list_all py_isspace (rev r)" by (simp add: list_all_iff)
  then have "dropWhile py_isspace (rev r @ rev t) = dropWhile py_isspace (rev t)"
    by (rule dropWhile_spaces)
  also from False la have "\<dots> = rev t"
    by (cases "rev t") (auto simp: last_rev hd_rev)
  finally show ?thesis by (simp add: strip_def d)
qed

lemma is_trim_of_unique:
  assumes "is_trim_of t p"
  shows "t = strip p"
proof -
  from assms obtain l r where "p = l @ t @ r" "list_all py_isspace l" "list_all py_isspace r"
    "t \<noteq> [] \<longrightarrow> \<not> py_isspace (hd t) \<and> \<not> py_isspace (last t)"
    unfolding is_trim_of_def is_whitespace_eq by blast
  then show ?thesis by (simp add: strip_sandwich)
qed

lemma trims_unique: "list_all2 is_trim_of ts ps \<Longrightarrow> ts = map strip ps"
  by (induction rule: list_all2_induct) (auto dest: is_trim_of_unique)

lemma tags_list_filter_map:
  "tags_list s = filter (\<lambda>t. t \<noteq> []) (map strip (split_on CHR '','' s))"
  by (simp add: tags_list_def filter_map comp_def)

lemma caps_small:
  "zip capital_letters small_letters =
     map (\<lambda>n. (char_of n, char_of (n + 32))) ([65 ..< 91] @ [192 ..< 215] @ [216 ..< 223])"
  unfolding capital_letters_def small_letters_def
  by (simp add: upt_rec char_of_eq_iff eq_char_of_iff)


lemma map_of_char_table:
  "\<forall>n \<in> set ns. n < 224 \<Longrightarrow>
   map_of (map (\<lambda>n. (char_of n, char_of (n + 32))) ns) c =
     (if (of_char c :: nat) \<in> set ns then Some (char_of ((of_char c :: nat) + 32)) else None)"
proof (induction ns)
  case Nil
  show ?case by simp
next
  case (Cons n ns)
  then have "n < 256" by simp
  then have "c = char_of n \<longleftrightarrow> (of_char c :: nat) = n" by (simp add: eq_char_of_iff)
  with Cons show ?case by auto
qed

lemma letter_codes:
  "set ([65 ..< 91] @ [192 ..< 215] @ [216 ..< 223]) = {65 ..< 91} \<union> {192 ..< 215} \<union> {216 ..< (223::nat)}"
  by (simp only: set_append set_upt Un_assoc)

lemma is_upper_codes:
  "is_upper c \<longleftrightarrow> (of_char c :: nat) \<in> {65 ..< 91} \<union> {192 ..< 215} \<union> {216 ..< 223}"
  unfolding is_upper_def Un_iff atLeastLessThan_iff by arith

lemma map_of_letters:
  "map_of (zip capital_letters small_letters) c =
     (if is_upper c then Some (lower_char c) else None)"
proof -
  have "\<forall>n \<in> set ([65 ..< 91] @ [192 ..< 215] @ [216 ..< 223]). n < (224::nat)"
    unfolding letter_codes by (intro ballI) (simp only: Un_iff atLeastLessThan_iff, arith)
  from map_of_char_table [OF this, of c]
  have m: "map_of (map (\<lambda>n. (char_of n, char_of (n + 32)))
                    ([65 ..< 91] @ [192 ..< 215] @ [216 ..< 223])) c =
             (if is_upper c then Some (char_of ((of_char c :: nat) + 32)) else None)"
    unfolding letter_codes is_upper_codes [symmetric] .
  show ?thesis
    unfolding caps_small m by (cases "is_upper c") (simp_all only: lower_char_def if_True if_False)
qed


lemma distinct_capital_letters: "distinct (map fst (zip capital_letters small_letters))"
  unfolding caps_small by (simp add: comp_def distinct_map inj_on_def char_of_eq_iff take_bit_eq_mod)


lemma zip_letters_iff:
  "(a, b) \<in> set (zip capital_letters small_letters) \<longleftrightarrow> is_upper a \<and> b = lower_char a"
  using map_of_eq_Some_iff [OF distinct_capital_letters, of a b]
  by (auto simp: map_of_letters split: if_splits)

lemma lower_char_eq_iff: "lower_char a = lower_char b \<longleftrightarrow> same_letter a b"
proof -
  have inj: "a = b \<longleftrightarrow> (of_char a :: nat) = of_char b" by simp
  have lt: "(of_char a :: nat) < 256" "(of_char b :: nat) < 256" by simp_all
  show ?thesis
    unfolding same_letter_def zip_letters_iff
    unfolding lower_char_def is_upper_def
    using lt
    by (auto simp: char_of_eq_iff eq_char_of_iff take_bit_eq_mod inj simp del: of_char_eq_iff)
qed

lemma py_lower_eq_iff: "py_lower q = py_lower u \<longleftrightarrow> list_all2 same_letter q u"
  unfolding py_lower_def
proof (induction q arbitrary: u)
  case Nil
  show ?case by auto
next
  case (Cons a q)
  then show ?case by (cases u) (auto simp: lower_char_eq_iff)
qed

lemma startswith_iff: "startswith s p \<longleftrightarrow> (\<exists>ss. s = p @ ss)"
  by (induction s p rule: startswith.induct) auto

lemma str_in_iff: "str_in q t \<longleftrightarrow> (\<exists>ps ss. t = ps @ q @ ss)"
proof (induction t)
  case Nil
  show ?case by auto
next
  case (Cons c cs)
  show ?case
  proof
    assume "str_in q (c # cs)"
    then consider "startswith (c # cs) q" | "str_in q cs" by auto
    then show "\<exists>ps ss. c # cs = ps @ q @ ss"
    proof cases
      case 1
      then obtain ss where "c # cs = q @ ss" by (auto simp: startswith_iff)
      then have "c # cs = [] @ q @ ss" by simp
      then show ?thesis by blast
    next
      case 2
      with Cons obtain ps ss where "cs = ps @ q @ ss" by auto
      then have "c # cs = (c # ps) @ q @ ss" by simp
      then show ?thesis by blast
    qed
  next
    assume "\<exists>ps ss. c # cs = ps @ q @ ss"
    then obtain ps ss where e: "c # cs = ps @ q @ ss" by blast
    show "str_in q (c # cs)"
    proof (cases ps)
      case Nil
      with e have "startswith (c # cs) q" by (auto simp: startswith_iff)
      then show ?thesis by simp
    next
      case (Cons p ps')
      with e have "cs = ps' @ q @ ss" by simp
      with Cons.IH have "str_in q cs" by blast
      then show ?thesis by simp
    qed
  qed
qed

lemma py_lower_append: "py_lower (a @ b) = py_lower a @ py_lower b"
  by (simp add: py_lower_def)

lemma py_lower_split:
  "py_lower t = a @ b \<Longrightarrow> \<exists>a' b'. t = a' @ b' \<and> py_lower a' = a \<and> py_lower b' = b"
  unfolding py_lower_def by (auto simp: map_eq_append_conv)


lemma str_in_lower_part:
  "str_in (py_lower q) (py_lower t) \<longleftrightarrow> (\<exists>ps u ss. t = ps @ u @ ss \<and> py_lower q = py_lower u)"
proof
  assume "str_in (py_lower q) (py_lower t)"
  then obtain ps ss where "py_lower t = ps @ py_lower q @ ss" by (auto simp: str_in_iff)
  then obtain ps' r where t: "t = ps' @ r" and "py_lower r = py_lower q @ ss"
    using py_lower_split [of t ps "py_lower q @ ss"] by auto
  then obtain u ss' where r: "r = u @ ss'" and "py_lower u = py_lower q"
    using py_lower_split [of r "py_lower q" ss] by auto
  with t r show "\<exists>ps u ss. t = ps @ u @ ss \<and> py_lower q = py_lower u" by metis
next
  assume "\<exists>ps u ss. t = ps @ u @ ss \<and> py_lower q = py_lower u"
  then obtain ps u ss where t: "t = ps @ u @ ss" and "py_lower q = py_lower u" by blast
  with t have "py_lower t = py_lower ps @ py_lower q @ py_lower ss"
    by (simp add: py_lower_append)
  then show "str_in (py_lower q) (py_lower t)" unfolding str_in_iff by blast
qed

lemma str_in_lower_iff: "str_in (py_lower q) (py_lower t) \<longleftrightarrow> ci_substring q t"
  unfolding str_in_lower_part ci_substring_def py_lower_eq_iff ..

lemma fold_char_lower: "c \<noteq> CHR 0xDF \<Longrightarrow> fold_char c = [lower_char c]"
  by (simp add: fold_char_def map_of_letters lower_char_def)

lemma casefold_lower: "CHR 0xDF \<notin> set s \<Longrightarrow> casefold s = py_lower s"
  by (induction s) (auto simp: casefold_def py_lower_def fold_char_lower)

lemma caseless_substring_iff:
  assumes "CHR 0xDF \<notin> set q" and "CHR 0xDF \<notin> set t"
  shows "caseless_substring q t \<longleftrightarrow> ci_substring q t"
proof -
  have "casefold q = casefold u \<longleftrightarrow> py_lower q = py_lower u" if "t = ps @ u @ ss" for ps u ss
    using that assms by (simp add: casefold_lower)
  then show ?thesis
    unfolding caseless_substring_def str_in_lower_iff [symmetric] str_in_lower_part by blast
qed

section \<open>Tag parsing\<close>

text \<open>
  Claim C5. The input has a split on commas, each piece has a trimmed form, and whichever
  way the input is split on commas and its pieces trimmed, \<open>tags_list\<close> is the list of the
  trimmed pieces without the empty ones: in the order of the input, a repeated tag as often
  as it occurs. The input \<open>"Travel, , Work,Health "\<close> gives \<open>["Travel", "Work", "Health"]\<close>.
  A no-break space and a next-line control around a tag are whitespace and are trimmed too.
\<close>

theorem tags_list_spec:
  "(\<exists>ps ts. is_split_of CHR '','' ps tags_input \<and> list_all2 is_trim_of ts ps) \<and>
   (\<forall>ps ts. is_split_of CHR '','' ps tags_input \<longrightarrow> list_all2 is_trim_of ts ps \<longrightarrow>
      tags_list tags_input = filter (\<lambda>t. t \<noteq> []) ts) \<and>
   tags_list ''Travel, , Work,Health '' = [''Travel'', ''Work'', ''Health''] \<and>
   tags_list (CHR 0xA0 # ''Travel'' @ [CHR 0x85, CHR '',''] @ ''Work'') = [''Travel'', ''Work'']"
proof (intro conjI allI impI)
  have "list_all2 is_trim_of (map strip (split_on CHR '','' tags_input))
          (split_on CHR '','' tags_input)"
    by (simp add: list_all2_conv_all_nth is_trim_of_strip)
  with is_split_of_split_on
  show "\<exists>ps ts. is_split_of CHR '','' ps tags_input \<and> list_all2 is_trim_of ts ps"
    by blast
next
  fix ps ts
  assume "is_split_of CHR '','' ps tags_input" "list_all2 is_trim_of ts ps"
  then have "ps = split_on CHR '','' tags_input" "ts = map strip ps"
    by (simp_all add: is_split_of_unique trims_unique)
  then show "tags_list tags_input = filter (\<lambda>t. t \<noteq> []) ts"
    by (simp add: tags_list_filter_map)
next
  show "tags_list ''Travel, , Work,Health '' = [''Travel'', ''Work'', ''Health'']"
    by (simp add: tags_list_def string_eval)
next
  show "tags_list (CHR 0xA0 # ''Travel'' @ [CHR 0x85, CHR '',''] @ ''Work'') = [''Travel'', ''Work'']"
    by (simp add: tags_list_def string_eval)
qed

theorem tags_list_spec_witness:
  "is_split_of CHR '','' [''a'', '' '', '' b'', '' a''] ''a, , b, a'' \<and>
   list_all2 is_trim_of [''a'', [], ''b'', ''a''] [''a'', '' '', '' b'', '' a''] \<and>
   tags_list ''a, , b, a'' = [''a'', ''b'', ''a'']"
proof -
  have s: "is_split_of CHR '','' [''a'', '' '', '' b'', '' a''] ''a, , b, a''"
    by (simp add: is_split_of_def)
  have "list_all2 is_trim_of (map strip [''a'', '' '', '' b'', '' a''])
          [''a'', '' '', '' b'', '' a'']"
    by (simp only: list.map list_all2_Cons list_all2_Nil is_trim_of_strip simp_thms)
  moreover have "map strip [''a'', '' '', '' b'', '' a''] = [''a'', [], ''b'', ''a'']"
    by (simp add: string_eval)
  ultimately have t: "list_all2 is_trim_of [''a'', [], ''b'', ''a''] [''a'', '' '', '' b'', '' a'']"
    by simp
  from tags_list_spec [of "''a, , b, a''", THEN conjunct2, THEN conjunct1, rule_format, OF s t]
  have "tags_list ''a, , b, a'' = [''a'', ''b'', ''a'']" by simp
  with s t show ?thesis by simp
qed

section \<open>Search filter\<close>

lemmas search_eval = search_match_def dict_get_def lower_of_def py_iter_def

lemma any_tag_strs:
  "any_tag q (map JStr tags) = Inr (\<exists>tag \<in> set tags. str_in (py_lower q) (py_lower tag))"
  by (induction tags) (simp_all add: lower_of_def)

lemma search_match_typed:
  assumes "field e ''title'' = Some (JStr title)"
    and "field e ''tags'' = Some (JList (map JStr tags))"
  shows "search_match q e =
           Inr (str_in (py_lower q) (py_lower title) \<or>
                (\<exists>tag \<in> set tags. str_in (py_lower q) (py_lower tag)))"
proof (cases e)
  case (JDict kvs)
  with assms show ?thesis by (simp add: search_eval any_tag_strs)
qed (use assms in simp_all)

text \<open>
  Claim C6, as amended. For an entry with a title and a list of tags, and any query, the
  search condition of the filter is true exactly when the query is a substring of the title
  or of one of the tags up to the case of each letter: some contiguous part of the title or
  of the tag is the query character by character, a capital letter and its small letter
  counting as the same character. As long as no sharp s occurs in the query, the title and
  the tags, that is the caseless matching of Unicode. The query \<open>"health"\<close> finds an entry
  tagged \<open>"Health"\<close> whose title does not contain the word.
\<close>

theorem search_match_spec:
  assumes "field e ''title'' = Some (JStr title)"
    and "field e ''tags'' = Some (JList (map JStr tags))"
  shows "search_match q e =
           Inr (ci_substring q title \<or> (\<exists>tag \<in> set tags. ci_substring q tag)) \<and>
         (CHR 0xDF \<notin> set q \<and> CHR 0xDF \<notin> set title \<and>
          (\<forall>tag \<in> set tags. CHR 0xDF \<notin> set tag) \<longrightarrow>
            search_match q e =
              Inr (caseless_substring q title \<or>
                   (\<exists>tag \<in> set tags. caseless_substring q tag))) \<and>
         search_match ''health''
           (JDict [(''title'', JStr ''Morning run''),
                   (''tags'', JList [JStr ''Work'', JStr ''Health''])]) = Inr True \<and>
         \<not> ci_substring ''health'' ''Morning run''"
proof (intro conjI impI)
  show m: "search_match q e =
          Inr (ci_substring q title \<or> (\<exists>tag \<in> set tags. ci_substring q tag))"
    using search_match_typed [OF assms] by (simp add: str_in_lower_iff)
  show "search_match q e =
          Inr (caseless_substring q title \<or> (\<exists>tag \<in> set tags. caseless_substring q tag))"
    if "CHR 0xDF \<notin> set q \<and> CHR 0xDF \<notin> set title \<and>
        (\<forall>tag \<in> set tags. CHR 0xDF \<notin> set tag)"
    using that by (simp add: m caseless_substring_iff)
  show "search_match ''health''
           (JDict [(''title'', JStr ''Morning run''),
                   (''tags'', JList [JStr ''Work'', JStr ''Health''])]) = Inr True"
    by (simp add: search_eval string_eval)
  have "\<not> str_in (py_lower ''health'') (py_lower ''Morning run'')"
    by (simp add: string_eval)
  then show "\<not> ci_substring ''health'' ''Morning run''"
    using str_in_lower_iff [of "''health''" "''Morning run''"] by blast
qed

theorem search_match_spec_witness:
  "field (JDict [(''title'', JStr [CHR 0xC9, CHR ''t'', CHR 0xE9]),
                 (''tags'', JList [JStr ''Work'', JStr ''HEALTHY''])])
     ''title'' = Some (JStr [CHR 0xC9, CHR ''t'', CHR 0xE9]) \<and>
   field (JDict [(''title'', JStr [CHR 0xC9, CHR ''t'', CHR 0xE9]),
                 (''tags'', JList [JStr ''Work'', JStr ''HEALTHY''])])
     ''tags'' = Some (JList (map JStr [''Work'', ''HEALTHY''])) \<and>
   search_match ''Health''
     (JDict [(''title'', JStr [CHR 0xC9, CHR ''t'', CHR 0xE9]),
             (''tags'', JList [JStr ''Work'', JStr ''HEALTHY''])]) = Inr True \<and>
   search_match [CHR 0xE9, CHR ''T'', CHR 0xC9]
     (JDict [(''title'', JStr [CHR 0xC9, CHR ''t'', CHR 0xE9]),
             (''tags'', JList [JStr ''Work'', JStr ''HEALTHY''])]) = Inr True \<and>
   search_match ''work!''
     (JDict [(''title'', JStr [CHR 0xC9, CHR ''t'', CHR 0xE9]),
             (''tags'', JList [JStr ''Work'', JStr ''HEALTHY''])]) = Inr False \<and>
   (ci_substring ''Health'' [CHR 0xC9, CHR ''t'', CHR 0xE9] \<or>
    (\<exists>tag \<in> set [''Work'', ''HEALTHY'']. ci_substring ''Health'' tag)) \<and>
   (caseless_substring [CHR 0xE9, CHR ''T'', CHR 0xC9] [CHR 0xC9, CHR ''t'', CHR 0xE9] \<or>
    (\<exists>tag \<in> set [''Work'', ''HEALTHY''].
       caseless_substring [CHR 0xE9, CHR ''T'', CHR 0xC9] tag)) \<and>
   \<not> (ci_substring ''work!'' [CHR 0xC9, CHR ''t'', CHR 0xE9] \<or>
      (\<exists>tag \<in> set [''Work'', ''HEALTHY'']. ci_substring ''work!'' tag))"
proof -
  let ?e = "JDict [(''title'', JStr [CHR 0xC9, CHR ''t'', CHR 0xE9]),
                   (''tags'', JList [JStr ''Work'', JStr ''HEALTHY''])]"
  have a: "field ?e ''title'' = Some (JStr [CHR 0xC9, CHR ''t'', CHR 0xE9])"
    by simp
  have b: "field ?e ''tags'' = Some (JList (map JStr [''Work'', ''HEALTHY'']))"
    by simp
  have c: "search_match ''Health'' ?e = Inr True"
    by (simp add: search_eval string_eval)
  have d: "search_match [CHR 0xE9, CHR ''T'', CHR 0xC9] ?e = Inr True"
    by (simp add: search_eval string_eval)
  have n: "search_match ''work!'' ?e = Inr False"
    by (simp add: search_eval string_eval)
  from search_match_spec [OF a b, of "''Health''", THEN conjunct1] c
  have c': "ci_substring ''Health'' [CHR 0xC9, CHR ''t'', CHR 0xE9] \<or>
        (\<exists>tag \<in> set [''Work'', ''HEALTHY'']. ci_substring ''Health'' tag)"
    by simp
  have "CHR 0xDF \<notin> set [CHR 0xE9, CHR ''T'', CHR 0xC9] \<and>
        CHR 0xDF \<notin> set [CHR 0xC9, CHR ''t'', CHR 0xE9] \<and>
        (\<forall>tag \<in> set [''Work'', ''HEALTHY'']. CHR 0xDF \<notin> set tag)"
    by simp
  with search_match_spec [OF a b, of "[CHR 0xE9, CHR ''T'', CHR 0xC9]",
      THEN conjunct2, THEN conjunct1] d
  have d': "caseless_substring [CHR 0xE9, CHR ''T'', CHR 0xC9] [CHR 0xC9, CHR ''t'', CHR 0xE9] \<or>
        (\<exists>tag \<in> set [''Work'', ''HEALTHY''].
           caseless_substring [CHR 0xE9, CHR ''T'', CHR 0xC9] tag)"
    by simp
  from search_match_spec [OF a b, of "''work!''", THEN conjunct1] n
  have n': "\<not> (ci_substring ''work!'' [CHR 0xC9, CHR ''t'', CHR 0xE9] \<or>
        (\<exists>tag \<in> set [''Work'', ''HEALTHY'']. ci_substring ''work!'' tag))"
    by simp
  from a b c d n c' d' n' show ?thesis by (intro conjI)
qed

text \<open>
  Claim C6 as stated fails in the presence of a sharp s. The title is the word
  \<open>Strasse\<close> written with a sharp s and the query is the same word in capitals, so the two
  are equal up to case, by the case folding of Unicode as by \<open>str.upper()\<close>; but
  \<open>str.lower()\<close> keeps the sharp s, the lowered query is no part of the lowered title, and
  the filter does not find the entry.
\<close>

theorem search_sharp_s_counterexample:
  "search_match ''STRASSE''
     (JDict [(''title'', JStr (''Stra'' @ [CHR 0xDF] @ ''e'')), (''tags'', JList [])]) =
     Inr False \<and>
   caseless_substring ''STRASSE'' (''Stra'' @ [CHR 0xDF] @ ''e'')"
proof
  show "search_match ''STRASSE''
     (JDict [(''title'', JStr (''Stra'' @ [CHR 0xDF] @ ''e'')), (''tags'', JList [])]) =
     Inr False"
    by (simp add: search_eval string_eval)
  have "casefold ''STRASSE'' = casefold (''Stra'' @ [CHR 0xDF] @ ''e'')"
    by (simp add: casefold_def fold_char_def map_of_letters string_eval)
  moreover have "''Stra'' @ [CHR 0xDF] @ ''e'' = [] @ (''Stra'' @ [CHR 0xDF] @ ''e'') @ []"
    by simp
  ultimately show "caseless_substring ''STRASSE'' (''Stra'' @ [CHR 0xDF] @ ''e'')"
    unfolding caseless_substring_def by blast
qed

section \<open>Date filter\<close>

lemmas date_eval =
  date_match_def dict_item_def strptime_def strptime_date_def strptime_matches_def
  month_alts_def day_alts_def weekday_alts_def name_alts_def weekday_names_def
  is_digit_def digit_val_def make_date_def days_in_month_def is_leap_def date_le_def

lemma date_le_refl: "date_le d d"
  by (simp add: date_le_def)

lemma date_le_trans: "date_le a b \<Longrightarrow> date_le b c \<Longrightarrow> date_le a c"
  by (auto simp: date_le_def)

lemma date_le_antisym: "date_le a b \<Longrightarrow> date_le b a \<Longrightarrow> a = b"
  by (cases a; cases b) (auto simp: date_le_def)

lemma date_le_total: "date_le a b \<or> date_le b a"
  by (auto simp: date_le_def)

lemma date_match_parsed:
  assumes "field e ''date'' = Some (JStr s)" and "strptime_date s = Inr d"
  shows "date_match start_date end_date e = Inr (date_le start_date d \<and> date_le d end_date)"
proof (cases e)
  case (JDict kvs)
  with assms show ?thesis by (simp add: date_match_def dict_item_def strptime_def)
qed (use assms in simp_all)

lemma strptime_2024_01_01: "strptime_date ''2024-01-01 (Monday)'' = Inr (Date 2024 1 1)"
  by (simp add: date_eval string_eval)

lemma strptime_2024_01_05: "strptime_date ''2024-01-05 (Friday)'' = Inr (Date 2024 1 5)"
  by (simp add: date_eval string_eval)

lemma strptime_2024_01_10: "strptime_date ''2024-01-10 (Wednesday)'' = Inr (Date 2024 1 10)"
  by (simp add: date_eval string_eval)

text \<open>
  Claim C7. For an entry whose date string \<open>strptime\<close> parses to a date \<open>d\<close>, and any range,
  the date condition of the filter is true exactly when \<open>start \<le> d \<le> end\<close>; both ends
  belong to the range, so the entry passes when \<open>d\<close> is the start and the end. Of entries
  dated 2024-01-01, 2024-01-05 and 2024-01-10, the range from 2024-01-02 to 2024-01-06 keeps
  the second only.
\<close>

theorem date_match_spec:
  assumes "field e ''date'' = Some (JStr s)" and "strptime_date s = Inr d"
  shows "date_match start_date end_date e =
           Inr (date_le start_date d \<and> date_le d end_date) \<and>
         date_match d d e = Inr True \<and>
         date_match (Date 2024 1 2) (Date 2024 1 6)
           (JDict [(''date'', JStr ''2024-01-01 (Monday)'')]) = Inr False \<and>
         date_match (Date 2024 1 2) (Date 2024 1 6)
           (JDict [(''date'', JStr ''2024-01-05 (Friday)'')]) = Inr True \<and>
         date_match (Date 2024 1 2) (Date 2024 1 6)
           (JDict [(''date'', JStr ''2024-01-10 (Wednesday)'')]) = Inr False"
proof (intro conjI)
  show "date_match start_date end_date e =
          Inr (date_le start_date d \<and> date_le d end_date)"
    by (rule date_match_parsed [OF assms])
  show "date_match d d e = Inr True"
    by (simp add: date_match_parsed [OF assms] date_le_refl)
  show "date_match (Date 2024 1 2) (Date 2024 1 6)
          (JDict [(''date'', JStr ''2024-01-01 (Monday)'')]) = Inr False"
    by (simp add: date_match_parsed [OF _ strptime_2024_01_01] date_le_def)
  show "date_match (Date 2024 1 2) (Date 2024 1 6)
          (JDict [(''date'', JStr ''2024-01-05 (Friday)'')]) = Inr True"
    by (simp add: date_match_parsed [OF _ strptime_2024_01_05] date_le_def)
  show "date_match (Date 2024 1 2) (Date 2024 1 6)
          (JDict [(''date'', JStr ''2024-01-10 (Wednesday)'')]) = Inr False"
    by (simp add: date_match_parsed [OF _ strptime_2024_01_10] date_le_def)
qed

theorem date_match_spec_witness:
  "field (JDict [(''date'', JStr ''2024-02-29 (Thursday)'')]) ''date'' =
     Some (JStr ''2024-02-29 (Thursday)'') \<and>
   strptime_date ''2024-02-29 (Thursday)'' = Inr (Date 2024 2 29) \<and>
   date_match (Date 2024 2 29) (Date 2024 3 1)
     (JDict [(''date'', JStr ''2024-02-29 (Thursday)'')]) = Inr True \<and>
   date_match (Date 2024 3 1) (Date 2024 3 31)
     (JDict [(''date'', JStr ''2024-02-29 (Thursday)'')]) = Inr False"
proof -
  have a: "field (JDict [(''date'', JStr ''2024-02-29 (Thursday)'')]) ''date'' =
             Some (JStr ''2024-02-29 (Thursday)'')"
    by simp
  have b: "strptime_date ''2024-02-29 (Thursday)'' = Inr (Date 2024 2 29)"
    by (simp add: date_eval string_eval)
  from date_match_spec [OF a b, of "Date 2024 2 29" "Date 2024 3 1", THEN conjunct1]
  have c: "date_match (Date 2024 2 29) (Date 2024 3 1)
             (JDict [(''date'', JStr ''2024-02-29 (Thursday)'')]) = Inr True"
    by (simp add: date_le_def)
  from date_match_spec [OF a b, of "Date 2024 3 1" "Date 2024 3 31", THEN conjunct1]
  have d: "date_match (Date 2024 3 1) (Date 2024 3 31)
             (JDict [(''date'', JStr ''2024-02-29 (Thursday)'')]) = Inr False"
    by (simp add: date_le_def)
  from a b c d show ?thesis by simp
qed

section \<open>Combined filter and display\<close>

lemma search_match_accepts:
  assumes "field e ''title'' = Some (JStr title)"
    and "field e ''tags'' = Some (JList (map JStr tags))"
  shows "search_match q e = Inr (search_accepts q e)"
proof -
  have "search_accepts q e \<longleftrightarrow>
        ci_substring q title \<or> (\<exists>tag \<in> set tags. ci_substring q tag)"
    unfolding search_accepts_def using assms by (auto simp: inj_map_eq_map inj_on_def)
  with search_match_typed [OF assms, of q] show ?thesis
    by (simp add: str_in_lower_iff)
qed

lemma date_match_accepts:
  assumes "field e ''date'' = Some (JStr ds)" and "strptime_date ds = Inr d"
  shows "date_match start_date end_date e = Inr (date_accepts start_date end_date e)"
proof -
  have "date_accepts start_date end_date e \<longleftrightarrow> date_le start_date d \<and> date_le d end_date"
    unfolding date_accepts_def using assms by auto
  with date_match_parsed [OF assms, of start_date end_date] show ?thesis by simp
qed

lemma keeps_entry:
  assumes "diary_entry e"
  shows "keeps q start_date end_date e =
           Inr (search_accepts q e \<and> date_accepts start_date end_date e)"
proof -
  from assms obtain title tags ds d where
    f: "field e ''title'' = Some (JStr title)" "field e ''tags'' = Some (JList (map JStr tags))"
       "field e ''date'' = Some (JStr ds)" "strptime_date ds = Inr d"
    unfolding diary_entry_def by blast
  show ?thesis
    by (simp add: keeps_def search_match_accepts [OF f(1,2)] date_match_accepts [OF f(3,4)])
qed

lemma filtered_entries_filter:
  "\<forall>e \<in> set entries. keeps q start_date end_date e = Inr (P e) \<Longrightarrow>
   filtered_entries q start_date end_date entries = Inr (filter P entries)"
  by (induction entries) simp_all

lemma entry_preview_entry:
  assumes "diary_entry e"
  shows "\<exists>b. entry_preview py312 idx e = Inr b \<and> snd (button_key b) = idx"
proof -
  from assms obtain title ds m tx kvs where
    "e = JDict kvs" "map_of kvs ''title'' = Some (JStr title)"
    "map_of kvs ''date'' = Some (JStr ds)" "map_of kvs ''mood'' = Some (JStr m)"
    "map_of kvs ''text'' = Some (JStr tx)"
    unfolding diary_entry_def by (cases e) auto
  then show ?thesis
    by (simp add: entry_preview_def dict_item_def mood_icon_def py_slice_def)
qed

lemma previews_entries:
  "\<forall>e \<in> set es. diary_entry e \<Longrightarrow>
   \<exists>bs. previews py312 idx es = Inr bs \<and> map snd bs = es \<and>
        map (\<lambda>p. snd (button_key (fst p))) bs = [idx ..< idx + length es]"
proof (induction es arbitrary: idx)
  case Nil
  show ?case by simp
next
  case (Cons e es)
  then obtain b where b: "entry_preview py312 idx e = Inr b" "snd (button_key b) = idx"
    using entry_preview_entry [of e py312 idx] by auto
  from Cons obtain bs where bs: "previews py312 (Suc idx) es = Inr bs" "map snd bs = es"
    "map (\<lambda>p. snd (button_key (fst p))) bs = [Suc idx ..< Suc idx + length es]"
    by fastforce
  have u: "[idx ..< Suc (idx + length es)] = idx # [Suc idx ..< Suc (idx + length es)]"
    by (rule upt_conv_Cons) simp
  from b bs show ?case by (simp add: u del: upt_Suc)
qed

text \<open>
  Claim C8, as amended. On a store whose entries all have a string title, a list of string
  tags, a date string that \<open>strptime\<close> parses, a string mood and a string text, for any query
  and date range, the comprehension returns exactly the entries that the search accepts
  and whose date lies in the range, in the order of the store; the sidebar then shows,
  under either interpreter, one button for each of them, in the reverse of that order,
  numbered from 0.
\<close>

theorem filtered_entries_spec:
  assumes "\<forall>e \<in> set entries. diary_entry e"
  shows "\<exists>kept shown.
           kept = filter (\<lambda>e. search_accepts q e \<and> date_accepts start_date end_date e)
                    entries \<and>
           filtered_entries q start_date end_date entries = Inr kept \<and>
           sidebar py312 kept = Inr shown \<and>
           map snd shown = rev kept \<and>
           map (\<lambda>p. snd (button_key (fst p))) shown = [0 ..< length kept]"
proof -
  let ?kept = "filter (\<lambda>e. search_accepts q e \<and> date_accepts start_date end_date e) entries"
  from assms
  have "\<forall>e \<in> set entries. keeps q start_date end_date e =
          Inr (search_accepts q e \<and> date_accepts start_date end_date e)"
    by (simp add: keeps_entry)
  then have f: "filtered_entries q start_date end_date entries = Inr ?kept"
    by (rule filtered_entries_filter)
  from assms have "\<forall>e \<in> set (rev ?kept). diary_entry e" by simp
  from previews_entries [OF this, of py312 0]
  obtain shown where "sidebar py312 ?kept = Inr shown" "map snd shown = rev ?kept"
    "map (\<lambda>p. snd (button_key (fst p))) shown = [0 ..< length ?kept]"
    by (auto simp: sidebar_def)
  with f show ?thesis by blast
qed

lemma diary_entryI:
  "field e ''title'' = Some (JStr title) \<Longrightarrow>
   field e ''tags'' = Some (JList (map JStr tags)) \<Longrightarrow>
   field e ''date'' = Some (JStr ds) \<Longrightarrow>
   strptime_date ds = Inr d \<Longrightarrow>
   field e ''mood'' = Some (JStr m) \<Longrightarrow>
   field e ''text'' = Some (JStr tx) \<Longrightarrow> diary_entry e"
  unfolding diary_entry_def by blast

lemma strptime_2024_01_06: "strptime_date ''2024-01-06 (Saturday)'' = Inr (Date 2024 1 6)"
  by (simp add: date_eval string_eval)

lemmas display_eval = sidebar_def entry_preview_def dict_item_def mood_icon_def py_slice_def

theorem filtered_entries_spec_witness:
  "diary_entry
     (JDict [(''title'', JStr ''Morning run''), (''tags'', JList [JStr ''Health'']),
            (''date'', JStr ''2024-01-01 (Monday)''), (''mood'', JStr ''Happy''),
            (''text'', JStr ''Ran 5 km'')]) \<and>
   diary_entry
     (JDict [(''title'', JStr ''Work notes''), (''tags'', JList [JStr ''Work'']),
            (''date'', JStr ''2024-01-05 (Friday)''), (''mood'', JStr ''Tired''),
            (''text'', JStr ''Long day'')]) \<and>
   diary_entry
     (JDict [(''title'', JStr ''Evening RUN''), (''tags'', JList []),
            (''date'', JStr ''2024-01-06 (Saturday)''), (''mood'', JStr ''Excited''),
            (''text'', JStr ''Ran again'')]) \<and>
   diary_entry
     (JDict [(''title'', JStr ''Health check''), (''tags'', JList [JStr ''run'']),
            (''date'', JStr ''2024-01-10 (Wednesday)''), (''mood'', JStr ''Calm''),
            (''text'', JStr '''')]) \<and>
   \<not> search_accepts ''run''
     (JDict [(''title'', JStr ''Work notes''), (''tags'', JList [JStr ''Work'']),
            (''date'', JStr ''2024-01-05 (Friday)''), (''mood'', JStr ''Tired''),
            (''text'', JStr ''Long day'')]) \<and>
   \<not> date_accepts (Date 2024 1 1) (Date 2024 1 6)
     (JDict [(''title'', JStr ''Health check''), (''tags'', JList [JStr ''run'']),
            (''date'', JStr ''2024-01-10 (Wednesday)''), (''mood'', JStr ''Calm''),
            (''text'', JStr '''')]) \<and>
   filter (\<lambda>e. search_accepts ''run'' e \<and> date_accepts (Date 2024 1 1) (Date 2024 1 6) e)
     [JDict [(''title'', JStr ''Morning run''), (''tags'', JList [JStr ''Health'']),
             (''date'', JStr ''2024-01-01 (Monday)''), (''mood'', JStr ''Happy''),
             (''text'', JStr ''Ran 5 km'')],
      JDict [(''title'', JStr ''Work notes''), (''tags'', JList [JStr ''Work'']),
             (''date'', JStr ''2024-01-05 (Friday)''), (''mood'', JStr ''Tired''),
             (''text'', JStr ''Long day'')],
      JDict [(''title'', JStr ''Evening RUN''), (''tags'', JList []),
             (''date'', JStr ''2024-01-06 (Saturday)''), (''mood'', JStr ''Excited''),
             (''text'', JStr ''Ran again'')],
      JDict [(''title'', JStr ''Health check''), (''tags'', JList [JStr ''run'']),
             (''date'', JStr ''2024-01-10 (Wednesday)''), (''mood'', JStr ''Calm''),
             (''text'', JStr '''')]] =
     [JDict [(''title'', JStr ''Morning run''), (''tags'', JList [JStr ''Health'']),
             (''date'', JStr ''2024-01-01 (Monday)''), (''mood'', JStr ''Happy''),
             (''text'', JStr ''Ran 5 km'')],
      JDict [(''title'', JStr ''Evening RUN''), (''tags'', JList []),
             (''date'', JStr ''2024-01-06 (Saturday)''), (''mood'', JStr ''Excited''),
             (''text'', JStr ''Ran again'')]] \<and>
   filtered_entries ''run'' (Date 2024 1 1) (Date 2024 1 6)
     [JDict [(''title'', JStr ''Morning run''), (''tags'', JList [JStr ''Health'']),
             (''date'', JStr ''2024-01-01 (Monday)''), (''mood'', JStr ''Happy''),
             (''text'', JStr ''Ran 5 km'')],
      JDict [(''title'', JStr ''Work notes''), (''tags'', JList [JStr ''Work'']),
             (''date'', JStr ''2024-01-05 (Friday)''), (''mood'', JStr ''Tired''),
             (''text'', JStr ''Long day'')],
      JDict [(''title'', JStr ''Evening RUN''), (''tags'', JList []),
             (''date'', JStr ''2024-01-06 (Saturday)''), (''mood'', JStr ''Excited''),
             (''text'', JStr ''Ran again'')],
      JDict [(''title'', JStr ''Health check''), (''tags'', JList [JStr ''run'']),
             (''date'', JStr ''2024-01-10 (Wednesday)''), (''mood'', JStr ''Calm''),
             (''text'', JStr '''')]] =
     Inr [JDict [(''title'', JStr ''Morning run''), (''tags'', JList [JStr ''Health'']),
                 (''date'', JStr ''2024-01-01 (Monday)''), (''mood'', JStr ''Happy''),
                 (''text'', JStr ''Ran 5 km'')],
          JDict [(''title'', JStr ''Evening RUN''), (''tags'', JList []),
                 (''date'', JStr ''2024-01-06 (Saturday)''), (''mood'', JStr ''Excited''),
                 (''text'', JStr ''Ran again'')]] \<and>
   sidebar True
     [JDict [(''title'', JStr ''Morning run''), (''tags'', JList [JStr ''Health'']),
             (''date'', JStr ''2024-01-01 (Monday)''), (''mood'', JStr ''Happy''),
             (''text'', JStr ''Ran 5 km'')],
      JDict [(''title'', JStr ''Evening RUN''), (''tags'', JList []),
             (''date'', JStr ''2024-01-06 (Saturday)''), (''mood'', JStr ''Excited''),
             (''text'', JStr ''Ran again'')]] =
     Inr [(Button (Some Excited) (JStr ''Evening RUN'')
                  (JStr ''2024-01-06 (Saturday)'', 0)
                  (JStr ''2024-01-06 (Saturday)'', JStr ''Excited'', JStr ''Ran again''),
           JDict [(''title'', JStr ''Evening RUN''), (''tags'', JList []),
                  (''date'', JStr ''2024-01-06 (Saturday)''), (''mood'', JStr ''Excited''),
                  (''text'', JStr ''Ran again'')]),
          (Button (Some Happy) (JStr ''Morning run'')
                  (JStr ''2024-01-01 (Monday)'', 1)
                  (JStr ''2024-01-01 (Monday)'', JStr ''Happy'', JStr ''Ran 5 km''),
           JDict [(''title'', JStr ''Morning run''), (''tags'', JList [JStr ''Health'']),
                  (''date'', JStr ''2024-01-01 (Monday)''), (''mood'', JStr ''Happy''),
                  (''text'', JStr ''Ran 5 km'')])]"
proof -
  let ?e1 = "JDict [(''title'', JStr ''Morning run''), (''tags'', JList [JStr ''Health'']),
                    (''date'', JStr ''2024-01-01 (Monday)''), (''mood'', JStr ''Happy''),
                    (''text'', JStr ''Ran 5 km'')]"
  let ?e2 = "JDict [(''title'', JStr ''Work notes''), (''tags'', JList [JStr ''Work'']),
                    (''date'', JStr ''2024-01-05 (Friday)''), (''mood'', JStr ''Tired''),
                    (''text'', JStr ''Long day'')]"
  let ?e3 = "JDict [(''title'', JStr ''Evening RUN''), (''tags'', JList []),
                    (''date'', JStr ''2024-01-06 (Saturday)''), (''mood'', JStr ''Excited''),
                    (''text'', JStr ''Ran again'')]"
  let ?e4 = "JDict [(''title'', JStr ''Health check''), (''tags'', JList [JStr ''run'']),
                    (''date'', JStr ''2024-01-10 (Wednesday)''), (''mood'', JStr ''Calm''),
                    (''text'', JStr '''')]"
  have d1: "diary_entry ?e1"
    by (rule diary_entryI [of _ "''Morning run''" "[''Health'']" _ _ "''Happy''" "''Ran 5 km''",
          OF _ _ _ strptime_2024_01_01]) simp_all
  have d2: "diary_entry ?e2"
    by (rule diary_entryI [of _ "''Work notes''" "[''Work'']" _ _ "''Tired''" "''Long day''",
          OF _ _ _ strptime_2024_01_05]) simp_all
  have d3: "diary_entry ?e3"
    by (rule diary_entryI [of _ "''Evening RUN''" "[]" _ _ "''Excited''" "''Ran again''",
          OF _ _ _ strptime_2024_01_06]) simp_all
  have d4: "diary_entry ?e4"
    by (rule diary_entryI [of _ "''Health check''" "[''run'']" _ _ "''Calm''" "[]",
          OF _ _ _ strptime_2024_01_10]) simp_all
  have h: "\<forall>e \<in> set [?e1, ?e2, ?e3, ?e4]. diary_entry e"
    using d1 d2 d3 d4 by simp
  have s2: "search_match ''run'' ?e2 = Inr False"
    by (simp add: search_eval string_eval)
  have "search_match ''run'' ?e2 = Inr (search_accepts ''run'' ?e2)"
    by (rule search_match_accepts [of _ "''Work notes''" "[''Work'']"]) simp_all
  with s2 have n2: "\<not> search_accepts ''run'' ?e2" by simp
  have "date_match (Date 2024 1 1) (Date 2024 1 6) ?e4 =
          Inr (date_accepts (Date 2024 1 1) (Date 2024 1 6) ?e4)"
    by (rule date_match_accepts [OF _ strptime_2024_01_10]) simp
  moreover have "date_match (Date 2024 1 1) (Date 2024 1 6) ?e4 = Inr False"
    by (simp add: date_match_parsed [OF _ strptime_2024_01_10] date_le_def)
  ultimately have n4: "\<not> date_accepts (Date 2024 1 1) (Date 2024 1 6) ?e4" by simp
  have k1: "keeps ''run'' (Date 2024 1 1) (Date 2024 1 6) ?e1 = Inr True"
    by (simp add: keeps_def search_eval string_eval
          date_match_parsed [OF _ strptime_2024_01_01] date_le_def)
  have k2: "keeps ''run'' (Date 2024 1 1) (Date 2024 1 6) ?e2 = Inr False"
    by (simp add: keeps_def s2)
  have k3: "keeps ''run'' (Date 2024 1 1) (Date 2024 1 6) ?e3 = Inr True"
    by (simp add: keeps_def search_eval string_eval
          date_match_parsed [OF _ strptime_2024_01_06] date_le_def)
  have k4: "keeps ''run'' (Date 2024 1 1) (Date 2024 1 6) ?e4 = Inr False"
    by (simp add: keeps_def search_eval string_eval
          date_match_parsed [OF _ strptime_2024_01_10] date_le_def)
  have f: "filtered_entries ''run'' (Date 2024 1 1) (Date 2024 1 6) [?e1, ?e2, ?e3, ?e4] =
             Inr [?e1, ?e3]"
    by (simp only: filtered_entries.simps k1 k2 k3 k4 sum.case if_True if_False)
  from filtered_entries_spec [OF h, of "''run''" "Date 2024 1 1" "Date 2024 1 6" True] f
  have g: "filter (\<lambda>e. search_accepts ''run'' e \<and>
                        date_accepts (Date 2024 1 1) (Date 2024 1 6) e)
             [?e1, ?e2, ?e3, ?e4] = [?e1, ?e3]"
    by auto
  have b: "sidebar True [?e1, ?e3] =
     Inr [(Button (Some Excited) (JStr ''Evening RUN'')
                  (JStr ''2024-01-06 (Saturday)'', 0)
                  (JStr ''2024-01-06 (Saturday)'', JStr ''Excited'', JStr ''Ran again''),
           ?e3),
          (Button (Some Happy) (JStr ''Morning run'')
                  (JStr ''2024-01-01 (Monday)'', 1)
                  (JStr ''2024-01-01 (Monday)'', JStr ''Happy'', JStr ''Ran 5 km''),
           ?e1)]"
    by (simp add: display_eval)
  from d1 d2 d3 d4 n2 n4 g f b show ?thesis by (intro conjI)
qed

text \<open>
  Claim C8 as stated fails on a store that \<open>load_entries\<close> returns: an entry persisted with
  a title and a date only is kept by the filter, and the display loop raises \<open>KeyError\<close> at
  \<open>entry["mood"]\<close>, under either interpreter, so the kept entry is not displayed.
\<close>

theorem display_missing_mood_counterexample:
  "load_entries
     (JsonDoc (JList [JDict [(''title'', JStr ''Run''),
                             (''date'', JStr ''2024-01-05 (Friday)'')]])) =
     Inr [JDict [(''title'', JStr ''Run''), (''date'', JStr ''2024-01-05 (Friday)''),
                 (''tags'', JList []), (''username'', JStr ''Unknown User''),
                 (''image'', JNull)]] \<and>
   filtered_entries [] (Date 2024 1 1) (Date 2024 1 31)
     [JDict [(''title'', JStr ''Run''), (''date'', JStr ''2024-01-05 (Friday)''),
             (''tags'', JList []), (''username'', JStr ''Unknown User''),
             (''image'', JNull)]] =
     Inr [JDict [(''title'', JStr ''Run''), (''date'', JStr ''2024-01-05 (Friday)''),
                 (''tags'', JList []), (''username'', JStr ''Unknown User''),
                 (''image'', JNull)]] \<and>
   sidebar False
     [JDict [(''title'', JStr ''Run''), (''date'', JStr ''2024-01-05 (Friday)''),
             (''tags'', JList []), (''username'', JStr ''Unknown User''),
             (''image'', JNull)]] = Inl KeyError \<and>
   sidebar True
     [JDict [(''title'', JStr ''Run''), (''date'', JStr ''2024-01-05 (Friday)''),
             (''tags'', JList []), (''username'', JStr ''Unknown User''),
             (''image'', JNull)]] = Inl KeyError"
proof (intro conjI)
  show "load_entries
     (JsonDoc (JList [JDict [(''title'', JStr ''Run''),
                             (''date'', JStr ''2024-01-05 (Friday)'')]])) =
     Inr [JDict [(''title'', JStr ''Run''), (''date'', JStr ''2024-01-05 (Friday)''),
                 (''tags'', JList []), (''username'', JStr ''Unknown User''),
                 (''image'', JNull)]]"
    by (simp add: fill_defaults_def setdefault_def)
  show "filtered_entries [] (Date 2024 1 1) (Date 2024 1 31)
     [JDict [(''title'', JStr ''Run''), (''date'', JStr ''2024-01-05 (Friday)''),
             (''tags'', JList []), (''username'', JStr ''Unknown User''),
             (''image'', JNull)]] =
     Inr [JDict [(''title'', JStr ''Run''), (''date'', JStr ''2024-01-05 (Friday)''),
                 (''tags'', JList []), (''username'', JStr ''Unknown User''),
                 (''image'', JNull)]]"
    by (simp add: keeps_def search_eval string_eval
          date_match_parsed [OF _ strptime_2024_01_05] date_le_def)
  show "sidebar False
     [JDict [(''title'', JStr ''Run''), (''date'', JStr ''2024-01-05 (Friday)''),
             (''tags'', JList []), (''username'', JStr ''Unknown User''),
             (''image'', JNull)]] = Inl KeyError"
    by (simp add: display_eval)
  show "sidebar True
     [JDict [(''title'', JStr ''Run''), (''date'', JStr ''2024-01-05 (Friday)''),
             (''tags'', JList []), (''username'', JStr ''Unknown User''),
             (''image'', JNull)]] = Inl KeyError"
    by (simp add: display_eval)
qed

section \<open>Save action\<close>

lemma entry_complete:
  "has_fields all_fields
     (entry title formatted_date selected_mood diary_text tags_input username uploaded_image)"
  by (simp add: entry_def has_fields_def all_fields_def)

lemma fill_entry_entry:
  "fill_entry
     (entry title formatted_date selected_mood diary_text tags_input username uploaded_image) =
   entry title formatted_date selected_mood diary_text tags_input username uploaded_image"
proof -
  have "has_fields backfilled_fields
     (entry title formatted_date selected_mood diary_text tags_input username uploaded_image)"
    by (simp add: entry_def has_fields_def backfilled_fields_def)
  then show ?thesis by (rule fill_entry_complete)
qed

text \<open>
  Claim C9. When the save button is pressed, the entry built from the form is appended to
  the entries and the whole sequence is written to the storage file. The stored entry has
  the title \<open>"Untitled"\<close> when the title input is empty and the title input otherwise, and
  the username \<open>"Unknown User"\<close> when the name input is empty and the name input otherwise.
  Loading the file again returns the entry with these values.
\<close>

theorem save_button_defaults:
  "(let e = entry title formatted_date selected_mood diary_text tags_input username
              uploaded_image
    in save_button entries e = (entries @ [e], JsonDoc (JList (entries @ [e]))) \<and>
       (title = [] \<longrightarrow> field e ''title'' = Some (JStr ''Untitled'')) \<and>
       (username = [] \<longrightarrow> field e ''username'' = Some (JStr ''Unknown User'')) \<and>
       (title \<noteq> [] \<longrightarrow> field e ''title'' = Some (JStr title)) \<and>
       (username \<noteq> [] \<longrightarrow> field e ''username'' = Some (JStr username)) \<and>
       (list_all is_dict entries \<longrightarrow>
          load_entries (snd (save_button entries e)) = Inr (map fill_entry entries @ [e])))"
proof -
  let ?e = "entry title formatted_date selected_mood diary_text tags_input username
              uploaded_image"
  have d: "is_dict ?e" by (simp add: entry_def)
  have t: "field ?e ''title'' = Some (JStr (str_or title ''Untitled''))"
    by (simp add: entry_def)
  have u: "field ?e ''username'' = Some (JStr (str_or username ''Unknown User''))"
    by (simp add: entry_def)
  have s: "save_button entries ?e = (entries @ [?e], JsonDoc (JList (entries @ [?e])))"
    by (simp add: save_button_def save_entries_def)
  have l: "load_entries (snd (save_button entries ?e)) = Inr (map fill_entry entries @ [?e])"
    if "list_all is_dict entries"
    using that by (simp add: s backfill_dicts d fill_entry_entry)
  show ?thesis
    unfolding Let_def
  proof (intro conjI impI)
    show "save_button entries ?e = (entries @ [?e], JsonDoc (JList (entries @ [?e])))"
      by (rule s)
    show "field ?e ''title'' = Some (JStr ''Untitled'')" if "title = []"
      unfolding t using that by (simp add: str_or_def)
    show "field ?e ''username'' = Some (JStr ''Unknown User'')" if "username = []"
      unfolding u using that by (simp add: str_or_def)
    show "field ?e ''title'' = Some (JStr title)" if "title \<noteq> []"
      unfolding t using that by (simp add: str_or_def)
    show "field ?e ''username'' = Some (JStr username)" if "username \<noteq> []"
      unfolding u using that by (simp add: str_or_def)
    show "load_entries (snd (save_button entries ?e)) = Inr (map fill_entry entries @ [?e])"
      if "list_all is_dict entries"
      using that by (rule l)
  qed
qed

theorem save_button_defaults_witness:
  "save_button [] (entry [] ''2024-01-05 (Friday)'' Happy ''5 km'' ''Health, Run'' [] None) =
     ([JDict [(''title'', JStr ''Untitled''), (''date'', JStr ''2024-01-05 (Friday)''),
              (''mood'', JStr ''Happy''), (''text'', JStr ''5 km''),
              (''tags'', JList [JStr ''Health'', JStr ''Run'']),
              (''username'', JStr ''Unknown User''), (''image'', JNull)]],
      JsonDoc (JList
        [JDict [(''title'', JStr ''Untitled''), (''date'', JStr ''2024-01-05 (Friday)''),
                (''mood'', JStr ''Happy''), (''text'', JStr ''5 km''),
                (''tags'', JList [JStr ''Health'', JStr ''Run'']),
                (''username'', JStr ''Unknown User''), (''image'', JNull)]])) \<and>
   field (entry [] ''2024-01-05 (Friday)'' Happy ''5 km'' ''Health, Run'' [] None) ''title'' =
     Some (JStr ''Untitled'') \<and>
   field (entry [] ''2024-01-05 (Friday)'' Happy ''5 km'' ''Health, Run'' [] None) ''username'' =
     Some (JStr ''Unknown User'')"
proof -
  have e: "entry [] ''2024-01-05 (Friday)'' Happy ''5 km'' ''Health, Run'' [] None =
     JDict [(''title'', JStr ''Untitled''), (''date'', JStr ''2024-01-05 (Friday)''),
            (''mood'', JStr ''Happy''), (''text'', JStr ''5 km''),
            (''tags'', JList [JStr ''Health'', JStr ''Run'']),
            (''username'', JStr ''Unknown User''), (''image'', JNull)]"
    by (simp add: entry_def str_or_def image_path_def tags_list_def string_eval)
  from save_button_defaults [of "[]" "''2024-01-05 (Friday)''" Happy "''5 km''"
      "''Health, Run''" "[]" None "[]"]
  have "save_button [] (entry [] ''2024-01-05 (Friday)'' Happy ''5 km'' ''Health, Run'' [] None) =
          ([entry [] ''2024-01-05 (Friday)'' Happy ''5 km'' ''Health, Run'' [] None],
           JsonDoc (JList
             [entry [] ''2024-01-05 (Friday)'' Happy ''5 km'' ''Health, Run'' [] None]))"
    and "field (entry [] ''2024-01-05 (Friday)'' Happy ''5 km'' ''Health, Run'' [] None)
           ''title'' = Some (JStr ''Untitled'')"
    and "field (entry [] ''2024-01-05 (Friday)'' Happy ''5 km'' ''Health, Run'' [] None)
           ''username'' = Some (JStr ''Unknown User'')"
    by (simp_all add: Let_def)
  then show ?thesis by (simp add: e)
qed

section \<open>The filter on a loaded store\<close>

text \<open>
  Claim C10. Some stores that \<open>load_entries\<close> accepts make the combined filter raise: with
  the empty query, which every title contains, an entry persisted without a \<open>date\<close> is
  loaded without one and the lookup \<open>entry['date']\<close> raises \<open>KeyError\<close>; an entry whose
  \<open>date\<close> is not in the format is loaded unchanged and \<open>strptime\<close> raises \<open>ValueError\<close>.
  This holds for every date range.
\<close>

theorem filter_raises_on_loaded_store:
  "load_entries (JsonDoc (JList [JDict [(''title'', JStr ''Run'')]])) =
     Inr [JDict [(''title'', JStr ''Run''), (''tags'', JList []),
                 (''username'', JStr ''Unknown User''), (''image'', JNull)]] \<and>
   filtered_entries [] start_date end_date
     [JDict [(''title'', JStr ''Run''), (''tags'', JList []),
             (''username'', JStr ''Unknown User''), (''image'', JNull)]] = Inl KeyError \<and>
   load_entries (JsonDoc (JList [JDict [(''date'', JStr ''05/01/2024'')]])) =
     Inr [JDict [(''date'', JStr ''05/01/2024''), (''title'', JStr ''Untitled''),
                 (''tags'', JList []), (''username'', JStr ''Unknown User''),
                 (''image'', JNull)]] \<and>
   filtered_entries [] start_date end_date
     [JDict [(''date'', JStr ''05/01/2024''), (''title'', JStr ''Untitled''),
             (''tags'', JList []), (''username'', JStr ''Unknown User''),
             (''image'', JNull)]] = Inl ValueError"
proof (intro conjI)
  show "load_entries (JsonDoc (JList [JDict [(''title'', JStr ''Run'')]])) =
     Inr [JDict [(''title'', JStr ''Run''), (''tags'', JList []),
                 (''username'', JStr ''Unknown User''), (''image'', JNull)]]"
    by (simp add: fill_defaults_def setdefault_def)
  show "filtered_entries [] start_date end_date
     [JDict [(''title'', JStr ''Run''), (''tags'', JList []),
             (''username'', JStr ''Unknown User''), (''image'', JNull)]] = Inl KeyError"
    by (simp add: keeps_def search_eval string_eval date_match_def dict_item_def)
  show "load_entries (JsonDoc (JList [JDict [(''date'', JStr ''05/01/2024'')]])) =
     Inr [JDict [(''date'', JStr ''05/01/2024''), (''title'', JStr ''Untitled''),
                 (''tags'', JList []), (''username'', JStr ''Unknown User''),
                 (''image'', JNull)]]"
    by (simp add: fill_defaults_def setdefault_def)
  have "strptime_date ''05/01/2024'' = Inl ValueError"
    by (simp add: date_eval string_eval)
  then show "filtered_entries [] start_date end_date
     [JDict [(''date'', JStr ''05/01/2024''), (''title'', JStr ''Untitled''),
             (''tags'', JList []), (''username'', JStr ''Unknown User''),
             (''image'', JNull)]] = Inl ValueError"
    by (simp add: keeps_def search_eval string_eval date_match_def dict_item_def strptime_def)
qed

theorem filter_raises_on_loaded_store_witness:
  "filtered_entries [] (Date 2024 1 1) (Date 2024 12 31)
     [JDict [(''title'', JStr ''Run''), (''tags'', JList []),
             (''username'', JStr ''Unknown User''), (''image'', JNull)]] = Inl KeyError \<and>
   filtered_entries [] (Date 2024 1 1) (Date 2024 12 31)
     [JDict [(''date'', JStr ''05/01/2024''), (''title'', JStr ''Untitled''),
             (''tags'', JList []), (''username'', JStr ''Unknown User''),
             (''image'', JNull)]] = Inl ValueError"
  using filter_raises_on_loaded_store [of "Date 2024 1 1" "Date 2024 12 31"] by blast

end
